theory Spec2Isabelle
  imports Complex_Main "HOL-Library.Signed_Division"
begin

unbundle bit_operations_syntax

section \<open>Machine integers and text\<close>

text \<open>
  The C++ type \<open>int\<close> of the compiler is 32 bits wide. Its values are modelled as HOL
  integers in the range \<open>int32\<close>, and every sum, difference and product that the source
  computes on \<open>int\<close> is wrapped by \<open>i32\<close> (two's complement). Signed overflow has no
  defined behaviour in C++; the wrap-around is what the usual compilers produce, and it
  is the identity wherever the exact result fits (lemma \<open>i32_id\<close> below).
  The operators \<open>/\<close> and \<open>%\<close> of C++ truncate towards zero: they are \<open>sdiv\<close> and
  \<open>smod\<close>. The only divisor in the program is the constant 512, so the quotient is
  always in range.
\<close>

definition int32 :: "int \<Rightarrow> bool" where
  "int32 x \<longleftrightarrow> - (2 ^ 31) \<le> x \<and> x < 2 ^ 31"

definition i32 :: "int \<Rightarrow> int" where
  "i32 x = signed_take_bit 31 x"

definition cadd :: "int \<Rightarrow> int \<Rightarrow> int" where
  "cadd a b = i32 (a + b)"

definition csub :: "int \<Rightarrow> int \<Rightarrow> int" where
  "csub a b = i32 (a - b)"

definition cmul :: "int \<Rightarrow> int \<Rightarrow> int" where
  "cmul a b = i32 (a * b)"

text \<open>\<open>std::to_string(int)\<close>: decimal digits, with a leading minus sign for negatives.\<close>

fun dec_digits :: "nat \<Rightarrow> string" where
  "dec_digits n =
     (if n < 10 then [''0123456789'' ! n]
      else dec_digits (n div 10) @ [''0123456789'' ! (n mod 10)])"

declare dec_digits.simps [simp del]

definition to_string :: "int \<Rightarrow> string" where
  "to_string v = (if v < 0 then CHR ''-'' # dec_digits (nat (- v)) else dec_digits (nat v))"

text \<open>
  \<open>operator<<\<close> under \<open>std::hex\<close>: lower-case hexadecimal digits without prefix;
  \<open>std::setw(6)\<close> with \<open>std::setfill('0')\<close> pads on the left to six characters and
  never truncates.
\<close>

fun hex_digits :: "nat \<Rightarrow> string" where
  "hex_digits n =
     (if n < 16 then [''0123456789abcdef'' ! n]
      else hex_digits (n div 16) @ [''0123456789abcdef'' ! (n mod 16)])"

declare hex_digits.simps [simp del]

definition setw6 :: "string \<Rightarrow> string" where
  "setw6 s = replicate (6 - length s) CHR ''0'' @ s"

section \<open>Data model (include/pim\_compiler.h)\<close>

definition MEMORY_ROW_SIZE :: int where
  "MEMORY_ROW_SIZE = 512"

record MatrixDimensions =
  M :: int
  N :: int
  K :: int

record ThreeAddressCode =
  instructions :: "string list"

record WorkAssignment =
  coreId :: int
  startRow :: int
  endRow :: int

record MemoryMap =
  baseAddrA :: int
  baseAddrB :: int
  baseAddrC :: int
  rowSizeA :: int
  rowSizeB :: int
  rowSizeC :: int
  rowsPerMatrixRowA :: int
  rowsPerMatrixRowB :: int
  rowsPerMatrixRowC :: int

section \<open>Instruction encoder (src/isa\_generator.cpp)\<close>

text \<open>
  \<open>to_hex_string(int value)\<close> prints \<open>value & 0xFFFFFF\<close>, which is never negative.
\<close>

definition to_hex_string :: "int \<Rightarrow> string" where
  "to_hex_string v = setw6 (hex_digits (nat (v AND 0xFFFFFF)))"

text \<open>
  The four generators. \<open>instruction\<close> is a \<open>uint32_t\<close> that starts at 0 and receives
  the fields by \<open>|=\<close>; the fields are shifted as \<open>int\<close>. After the two masks every
  operand lies in \<open>[0, 2^19)\<close>, so neither a shift nor the conversions between
  \<open>int\<close> and \<open>uint32_t\<close> change a value (lemma \<open>instr_word_range\<close>), and the bitwise
  operations of HOL on \<open>int\<close> (two's complement) are those of the source.
  \<open>genNoOpInstr\<close> takes no argument.
\<close>

definition genNoOpInstr :: string where
  "genNoOpInstr = to_hex_string (0 OR push_bit 17 0)"

definition genProgInstr :: "int \<Rightarrow> bool \<Rightarrow> bool \<Rightarrow> int \<Rightarrow> string" where
  "genProgInstr cid rd wr addr =
     (let cid = cid AND 0x3F;
          addr = addr AND 0x1FF
      in to_hex_string
           (0 OR push_bit 17 1
              OR push_bit 11 cid
              OR push_bit 10 (if rd then 1 else 0)
              OR push_bit 9 (if wr then 1 else 0)
              OR addr))"

definition genExeInstr :: "int \<Rightarrow> bool \<Rightarrow> bool \<Rightarrow> int \<Rightarrow> string" where
  "genExeInstr cid rd wr addr =
     (let cid = cid AND 0x3F;
          addr = addr AND 0x1FF
      in to_hex_string
           (0 OR push_bit 17 2
              OR push_bit 11 cid
              OR push_bit 10 (if rd then 1 else 0)
              OR push_bit 9 (if wr then 1 else 0)
              OR addr))"

definition genEndInstr :: "int \<Rightarrow> bool \<Rightarrow> bool \<Rightarrow> int \<Rightarrow> string" where
  "genEndInstr cid rd wr addr =
     (let cid = cid AND 0x3F;
          addr = addr AND 0x1FF
      in to_hex_string
           (0 OR push_bit 17 3
              OR push_bit 11 cid
              OR push_bit 10 (if rd then 1 else 0)
              OR push_bit 9 (if wr then 1 else 0)
              OR addr))"

text \<open>
  The logical instruction of the specification and the encoder as one function of the
  opcode: it selects the generator of that opcode. The generator of NOOP has no
  parameters, so the fields are not passed on.
\<close>

datatype opcode = NOOP | PROG | EXE | END

fun opcode_bits :: "opcode \<Rightarrow> int" where
  "opcode_bits NOOP = 0"
| "opcode_bits PROG = 1"
| "opcode_bits EXE = 2"
| "opcode_bits END = 3"

fun encodeInstr :: "opcode \<Rightarrow> int \<Rightarrow> bool \<Rightarrow> bool \<Rightarrow> int \<Rightarrow> string" where
  "encodeInstr NOOP cid rd wr addr = genNoOpInstr"
| "encodeInstr PROG cid rd wr addr = genProgInstr cid rd wr addr"
| "encodeInstr EXE cid rd wr addr = genExeInstr cid rd wr addr"
| "encodeInstr END cid rd wr addr = genEndInstr cid rd wr addr"

text \<open>The word that the specification gives for an instruction.\<close>

definition spec_word :: "opcode \<Rightarrow> int \<Rightarrow> bool \<Rightarrow> bool \<Rightarrow> int \<Rightarrow> int" where
  "spec_word opc cid rd wr addr =
     push_bit 17 (opcode_bits opc)
       OR push_bit 11 (cid AND 0x3F)
       OR push_bit 10 (if rd then 1 else 0)
       OR push_bit 9 (if wr then 1 else 0)
       OR (addr AND 0x1FF)"

record Instruction =
  instr_opcode :: opcode
  instr_coreId :: int
  instr_read :: bool
  instr_write :: bool
  instr_address :: int

text \<open>
  Modelled from the spec: the value of a hexadecimal digit of either case, and of a
  string of such digits. The repository has no function that reads the encoded text
  back; section 4.4 asks for text that is "lowercase-insensitive 6-digit hex".
\<close>

definition hex_digit_val :: "char \<Rightarrow> nat option" where
  "hex_digit_val c =
     (let n = (of_char c :: nat)
      in if 48 \<le> n \<and> n \<le> 57 then Some (n - 48)
         else if 97 \<le> n \<and> n \<le> 102 then Some (n - 87)
         else if 65 \<le> n \<and> n \<le> 70 then Some (n - 55)
         else None)"

fun hex_val :: "nat \<Rightarrow> string \<Rightarrow> nat option" where
  "hex_val acc [] = Some acc"
| "hex_val acc (c # cs) =
     (case hex_digit_val c of
        None \<Rightarrow> None
      | Some d \<Rightarrow> hex_val (16 * acc + d) cs)"

text \<open>
  Modelled from the spec: the opcode of a 2-bit field value (00 NOOP, 01 PROG, 10 EXE,
  11 END, section 4.4).
\<close>

definition opcode_of :: "int \<Rightarrow> opcode" where
  "opcode_of b = (if b = 0 then NOOP else if b = 1 then PROG else if b = 2 then EXE else END)"

text \<open>
  Modelled from the spec: the decoder (hexadecimal text to fields), which is not part of
  the repository. It reads six hexadecimal digits as a number and takes the fields from
  the bit positions of the table in section 4.4: opcode 18-17, coreId 16-11, read 10,
  write 9, address 8-0.
\<close>

definition decodeInstr :: "string \<Rightarrow> Instruction option" where
  "decodeInstr s =
     (if length s \<noteq> 6 then None
      else case hex_val 0 s of
        None \<Rightarrow> None
      | Some n \<Rightarrow>
          (let w = int n
           in Some \<lparr>instr_opcode = opcode_of (drop_bit 17 w AND 3),
                    instr_coreId = drop_bit 11 w AND 0x3F,
                    instr_read = bit w 10,
                    instr_write = bit w 9,
                    instr_address = w AND 0x1FF\<rparr>))"

section \<open>Work partitioner (src/parallelizer.cpp)\<close>

text \<open>
  \<open>std::ceil(static_cast<double>(dims.M) / numCores)\<close>, converted to \<open>int\<close>. Both
  operands are 32-bit integers, so they are exact as \<open>double\<close>, and the rounding error
  of the quotient (at most \<open>2^31 * 2^-53 / numCores\<close>) is smaller than the distance
  \<open>1 / numCores\<close> between a quotient that is not an integer and the nearest integer.
  Hence the ceiling of the rounded quotient is the ceiling of the exact one, which
  \<open>ceil_div\<close> computes on the integers (lemma \<open>ceil_div_real\<close>). For a divisor 0 the
  quotient is infinite or not a number and its conversion to \<open>int\<close> is undefined; no
  statement below uses \<open>ceil_div\<close> there.
\<close>

definition ceil_div :: "int \<Rightarrow> int \<Rightarrow> int" where
  "ceil_div a b = - ((- a) div b)"

text \<open>
  The loop over the cores appends to the vector \<open>assignments\<close>. The counter satisfies
  \<open>core < numCores\<close> when it is incremented, so \<open>core++\<close> cannot overflow.
\<close>

function distributeLoop ::
  "MatrixDimensions \<Rightarrow> int \<Rightarrow> int \<Rightarrow> int \<Rightarrow> WorkAssignment list \<Rightarrow> WorkAssignment list" where
  "distributeLoop dims numCores rowsPerCore core assignments =
     (if core < numCores then
        (let work = \<lparr>coreId = core,
                     startRow = cmul core rowsPerCore,
                     endRow = min (csub (cmul (cadd core 1) rowsPerCore) 1) (csub (M dims) 1)\<rparr>
         in distributeLoop dims numCores rowsPerCore (core + 1)
              (if startRow work \<le> endRow work then assignments @ [work] else assignments))
      else assignments)"
  by pat_completeness auto
termination
  by (relation "measure (\<lambda>(dims, numCores, rowsPerCore, core, assignments). nat (numCores - core))") auto

declare distributeLoop.simps [simp del]

text \<open>The core count after the clamp, and whether the warning is printed.\<close>

definition effectiveCores :: "MatrixDimensions \<Rightarrow> int \<Rightarrow> int" where
  "effectiveCores dims numCores = (if numCores > M dims then M dims else numCores)"

definition clampWarning :: "MatrixDimensions \<Rightarrow> int \<Rightarrow> string option" where
  "clampWarning dims numCores =
     (if numCores > M dims then
        Some (''Warning: More cores ('' @ to_string numCores @ '') than matrix rows (''
              @ to_string (M dims) @ ''). Using only '' @ to_string (M dims) @ '' cores.'')
      else None)"

definition distributeWork :: "MatrixDimensions \<Rightarrow> int \<Rightarrow> WorkAssignment list" where
  "distributeWork dims numCores =
     (let numCores = effectiveCores dims numCores;
          rowsPerCore = ceil_div (M dims) numCores
      in distributeLoop dims numCores rowsPerCore 0 [])"

section \<open>Memory layout planner (src/memory\_layout.cpp)\<close>

text \<open>The lines written to standard output are not part of the model.\<close>

definition optimizeMemoryLayout :: "MatrixDimensions \<Rightarrow> MemoryMap" where
  "optimizeMemoryLayout dims =
     (let sizeA = cmul (M dims) (K dims);
          sizeB = cmul (K dims) (N dims);
          sizeC = cmul (M dims) (N dims);
          rowsA = csub (cadd sizeA MEMORY_ROW_SIZE) 1 sdiv MEMORY_ROW_SIZE;
          rowsB = csub (cadd sizeB MEMORY_ROW_SIZE) 1 sdiv MEMORY_ROW_SIZE;
          rowsC = csub (cadd sizeC MEMORY_ROW_SIZE) 1 sdiv MEMORY_ROW_SIZE
      in \<lparr>baseAddrA = 0,
          baseAddrB = rowsA,
          baseAddrC = cadd rowsA rowsB,
          rowSizeA = K dims,
          rowSizeB = N dims,
          rowSizeC = N dims,
          rowsPerMatrixRowA = csub (cadd (K dims) MEMORY_ROW_SIZE) 1 sdiv MEMORY_ROW_SIZE,
          rowsPerMatrixRowB = csub (cadd (N dims) MEMORY_ROW_SIZE) 1 sdiv MEMORY_ROW_SIZE,
          rowsPerMatrixRowC = csub (cadd (N dims) MEMORY_ROW_SIZE) 1 sdiv MEMORY_ROW_SIZE\<rparr>)"

section \<open>Core instruction sequencer (src/core\_sequence.cpp)\<close>

text \<open>
  Every loop takes the vector \<open>instructions\<close> and returns it with the entries it
  appended. The loop counters are compared with their bound before each increment;
  only \<open>i++\<close> of the row loop could overflow, and only for \<open>endRow = 2^31 - 1\<close>, which
  no work assignment has (\<open>endRow \<le> M - 1\<close>). The segment loop of the source also
  computes \<open>startPos\<close>, \<open>endPos\<close> and \<open>elementsInSegment\<close>, which nothing reads.
\<close>

function segmentLoop :: "int \<Rightarrow> MemoryMap \<Rightarrow> int \<Rightarrow> int \<Rightarrow> string list \<Rightarrow> string list" where
  "segmentLoop cid memMap aRowBase segment instrs =
     (if segment < rowsPerMatrixRowA memMap then
        (let aSegmentAddr = cadd aRowBase segment
         in segmentLoop cid memMap aRowBase (segment + 1)
              (instrs @ [genExeInstr cid True False aSegmentAddr,
                         genExeInstr cid False False 0]))
      else instrs)"
  by pat_completeness auto
termination
  by (relation "measure (\<lambda>(cid, memMap, aRowBase, segment, instrs).
        nat (rowsPerMatrixRowA memMap - segment))") auto

declare segmentLoop.simps [simp del]

function kLoop :: "int \<Rightarrow> int \<Rightarrow> MatrixDimensions \<Rightarrow> MemoryMap \<Rightarrow> int \<Rightarrow> string list \<Rightarrow> string list" where
  "kLoop cid j dims memMap k instrs =
     (if k < K dims then
        (let bIndex = cadd (cmul k (rowSizeB memMap)) j;
             bAddr = cadd (baseAddrB memMap) (bIndex sdiv MEMORY_ROW_SIZE);
             bOffset = bIndex smod MEMORY_ROW_SIZE
         in kLoop cid j dims memMap (k + 1)
              (instrs @ [genExeInstr cid True False bAddr,
                         genExeInstr cid False False bOffset,
                         genExeInstr cid False False 2]))
      else instrs)"
  by pat_completeness auto
termination
  by (relation "measure (\<lambda>(cid, j, dims, memMap, k, instrs). nat (K dims - k))") auto

declare kLoop.simps [simp del]

function jLoop :: "int \<Rightarrow> int \<Rightarrow> MatrixDimensions \<Rightarrow> MemoryMap \<Rightarrow> int \<Rightarrow> string list \<Rightarrow> string list" where
  "jLoop cid i dims memMap j instrs =
     (if j < N dims then
        (let instrs = instrs @ [''# Computing element C['' @ to_string i @ ''][''
                                  @ to_string j @ '']''];
             instrs = instrs @ [genExeInstr cid False False 0];
             instrs = kLoop cid j dims memMap 0 instrs;
             cIndex = cadd (cmul i (rowSizeC memMap)) j;
             cAddr = cadd (baseAddrC memMap) (cIndex sdiv MEMORY_ROW_SIZE);
             cOffset = cIndex smod MEMORY_ROW_SIZE
         in jLoop cid i dims memMap (j + 1)
              (instrs @ [genExeInstr cid False True cAddr,
                         genExeInstr cid False False cOffset]))
      else instrs)"
  by pat_completeness auto
termination
  by (relation "measure (\<lambda>(cid, i, dims, memMap, j, instrs). nat (N dims - j))") auto

declare jLoop.simps [simp del]

text \<open>The address-load part of one row: the two branches on \<open>rowsPerMatrixRowA\<close>.\<close>

definition loadRowA :: "int \<Rightarrow> MemoryMap \<Rightarrow> int \<Rightarrow> string list \<Rightarrow> string list" where
  "loadRowA cid memMap i instrs =
     (if rowsPerMatrixRowA memMap > 1 then
        (let aRowBase = cadd (baseAddrA memMap) (cmul i (rowsPerMatrixRowA memMap))
         in segmentLoop cid memMap aRowBase 0 instrs)
      else
        (let aRowAddr = cadd (baseAddrA memMap)
                          (cmul i (rowSizeA memMap) sdiv MEMORY_ROW_SIZE);
             aRowOffset = cmul i (rowSizeA memMap) smod MEMORY_ROW_SIZE
         in instrs @ [genExeInstr cid True False aRowAddr,
                      genExeInstr cid False False aRowOffset]))"

function iLoop :: "int \<Rightarrow> int \<Rightarrow> MatrixDimensions \<Rightarrow> MemoryMap \<Rightarrow> int \<Rightarrow> string list \<Rightarrow> string list" where
  "iLoop cid endR dims memMap i instrs =
     (if i \<le> endR then
        (let instrs = instrs @ [''# Processing row '' @ to_string i];
             instrs = loadRowA cid memMap i instrs;
             instrs = jLoop cid i dims memMap 0 instrs
         in iLoop cid endR dims memMap (i + 1) instrs)
      else instrs)"
  by pat_completeness auto
termination
  by (relation "measure (\<lambda>(cid, endR, dims, memMap, i, instrs). nat (endR + 1 - i))") auto

declare iLoop.simps [simp del]

definition generateCoreInstructions ::
  "int \<Rightarrow> int \<Rightarrow> int \<Rightarrow> MatrixDimensions \<Rightarrow> MemoryMap \<Rightarrow> string list" where
  "generateCoreInstructions cid startR endR dims memMap =
     (let instrs = [''# Instructions for Core '' @ to_string cid @ '' (Rows ''
                      @ to_string startR @ '' to '' @ to_string endR @ '')''];
          instrs = instrs @ [genProgInstr cid True False 1];
          instrs = iLoop cid endR dims memMap startR instrs
      in instrs @ [genEndInstr cid False False 0])"

section \<open>IR generator (src/three\_address.cpp)\<close>

definition generateThreeAddressCode :: "MatrixDimensions \<Rightarrow> ThreeAddressCode" where
  "generateThreeAddressCode dims =
     \<lparr>instructions =
        [''i = 0'',
         ''L1: if i >= '' @ to_string (M dims) @ '' goto END_L1'',
         ''    j = 0'',
         ''    L2: if j >= '' @ to_string (N dims) @ '' goto END_L2'',
         ''        sum = 0'',
         ''        k = 0'',
         ''        L3: if k >= '' @ to_string (K dims) @ '' goto END_L3'',
         ''            t1 = i * '' @ to_string (K dims),
         ''            t2 = t1 + k'',
         ''            t3 = k * '' @ to_string (N dims),
         ''            t4 = t3 + j'',
         ''            t5 = A[t2]'',
         ''            t6 = B[t4]'',
         ''            t7 = t5 * t6'',
         ''            sum = sum + t7'',
         ''            k = k + 1'',
         ''            goto L3'',
         ''        END_L3:'',
         ''        t8 = i * '' @ to_string (N dims),
         ''        t9 = t8 + j'',
         ''        C[t9] = sum'',
         ''        j = j + 1'',
         ''        goto L2'',
         ''    END_L2:'',
         ''    i = i + 1'',
         ''    goto L1'',
         ''END_L1:'']\<rparr>"

section \<open>Pipeline driver (src/main.cpp)\<close>







section \<open>Reading the generated text\<close>

text \<open>
  Observations on the three-address code: its tokens (maximal runs of letters, digits and
  underscores), the labels it defines (an identifier followed by a colon at the start of
  a line) and jumps to, its temporaries (\<open>t\<close> followed by digits), and the literal bound
  of a conditional jump \<open>label: if v >= bound goto target\<close>.
\<close>

definition isDigit :: "char \<Rightarrow> bool" where
  "isDigit c \<longleftrightarrow> 48 \<le> (of_char c :: nat) \<and> (of_char c :: nat) \<le> 57"

definition isIdChar :: "char \<Rightarrow> bool" where
  "isIdChar c \<longleftrightarrow>
     (let n = (of_char c :: nat)
      in (48 \<le> n \<and> n \<le> 57) \<or> (65 \<le> n \<and> n \<le> 90) \<or> (97 \<le> n \<and> n \<le> 122) \<or> n = 95)"

fun tokens_from :: "string \<Rightarrow> string \<Rightarrow> string list" where
  "tokens_from cur [] = (if cur = [] then [] else [cur])"
| "tokens_from cur (c # cs) =
     (if isIdChar c then tokens_from (cur @ [c]) cs
      else (if cur = [] then [] else [cur]) @ tokens_from [] cs)"

definition tokens :: "string \<Rightarrow> string list" where
  "tokens s = tokens_from [] s"

definition labelDef :: "string \<Rightarrow> string option" where
  "labelDef line =
     (let s = dropWhile (\<lambda>c. c = CHR '' '') line;
          l = takeWhile isIdChar s;
          r = dropWhile isIdChar s
      in if l \<noteq> [] \<and> r \<noteq> [] \<and> hd r = CHR '':'' then Some l else None)"

definition gotoTarget :: "string \<Rightarrow> string option" where
  "gotoTarget line =
     (let ts = tokens line
      in if 2 \<le> length ts \<and> ts ! (length ts - 2) = ''goto'' then Some (last ts) else None)"

definition labelSet :: "string list \<Rightarrow> string set" where
  "labelSet code = set (List.map_filter labelDef code) \<union> set (List.map_filter gotoTarget code)"

definition isTemporary :: "string \<Rightarrow> bool" where
  "isTemporary t \<longleftrightarrow>
     (case t of [] \<Rightarrow> False | c # ds \<Rightarrow> c = CHR ''t'' \<and> ds \<noteq> [] \<and> list_all isDigit ds)"

definition temporaries :: "string list \<Rightarrow> string set" where
  "temporaries code = set (filter isTemporary (concat (map tokens code)))"

fun dec_val :: "nat \<Rightarrow> string \<Rightarrow> nat option" where
  "dec_val acc [] = Some acc"
| "dec_val acc (c # cs) =
     (if isDigit c then dec_val (10 * acc + (of_char c - 48)) cs else None)"

definition loopBound :: "string \<Rightarrow> (string \<times> string \<times> nat option \<times> string) option" where
  "loopBound line =
     (let ts = tokens line
      in if length ts = 6 \<and> ts ! 1 = ''if'' \<and> ts ! 4 = ''goto''
         then Some (ts ! 0, ts ! 2, dec_val 0 (ts ! 3), ts ! 5) else None)"


text \<open>
  A line template: fixed text with places for the decimal form of a dimension.
\<close>

datatype piece = Lit string | DimM | DimN | DimK

fun fill_piece :: "MatrixDimensions \<Rightarrow> piece \<Rightarrow> string" where
  "fill_piece dims (Lit s) = s"
| "fill_piece dims DimM = to_string (M dims)"
| "fill_piece dims DimN = to_string (N dims)"
| "fill_piece dims DimK = to_string (K dims)"

definition fill_line :: "MatrixDimensions \<Rightarrow> piece list \<Rightarrow> string" where
  "fill_line dims ps = concat (map (fill_piece dims) ps)"

definition tac_template :: "piece list list" where
  "tac_template =
     [[Lit ''i = 0''],
      [Lit ''L1: if i >= '', DimM, Lit '' goto END_L1''],
      [Lit ''    j = 0''],
      [Lit ''    L2: if j >= '', DimN, Lit '' goto END_L2''],
      [Lit ''        sum = 0''],
      [Lit ''        k = 0''],
      [Lit ''        L3: if k >= '', DimK, Lit '' goto END_L3''],
      [Lit ''            t1 = i * '', DimK],
      [Lit ''            t2 = t1 + k''],
      [Lit ''            t3 = k * '', DimN],
      [Lit ''            t4 = t3 + j''],
      [Lit ''            t5 = A[t2]''],
      [Lit ''            t6 = B[t4]''],
      [Lit ''            t7 = t5 * t6''],
      [Lit ''            sum = sum + t7''],
      [Lit ''            k = k + 1''],
      [Lit ''            goto L3''],
      [Lit ''        END_L3:''],
      [Lit ''        t8 = i * '', DimN],
      [Lit ''        t9 = t8 + j''],
      [Lit ''        C[t9] = sum''],
      [Lit ''        j = j + 1''],
      [Lit ''        goto L2''],
      [Lit ''    END_L2:''],
      [Lit ''    i = i + 1''],
      [Lit ''    goto L1''],
      [Lit ''END_L1:'']]"

text \<open>
  The sequence that the specification gives for a core whose rows of A each fit one
  memory row (sections 4.5 and 6): the steps of the sequencer with every index and
  address computed over the integers, \<open>div\<close> and \<open>mod\<close> being quotient and remainder
  by the memory-row width 512.
\<close>

definition spec_sequence_single ::
  "int \<Rightarrow> int \<Rightarrow> int \<Rightarrow> MatrixDimensions \<Rightarrow> MemoryMap \<Rightarrow> string list" where
  "spec_sequence_single cid startR endR dims memMap =
     [''# Instructions for Core '' @ to_string cid @ '' (Rows '' @ to_string startR
        @ '' to '' @ to_string endR @ '')'',
      genProgInstr cid True False 1]
     @ concat (map (\<lambda>i.
         [''# Processing row '' @ to_string i,
          genExeInstr cid True False (baseAddrA memMap + (i * rowSizeA memMap) div 512),
          genExeInstr cid False False ((i * rowSizeA memMap) mod 512)]
         @ concat (map (\<lambda>j.
             [''# Computing element C['' @ to_string i @ '']['' @ to_string j @ '']'',
              genExeInstr cid False False 0]
             @ concat (map (\<lambda>k.
                 [genExeInstr cid True False
                    (baseAddrB memMap + (k * rowSizeB memMap + j) div 512),
                  genExeInstr cid False False ((k * rowSizeB memMap + j) mod 512),
                  genExeInstr cid False False 2])
                 [0..K dims - 1])
             @ [genExeInstr cid False True
                  (baseAddrC memMap + (i * rowSizeC memMap + j) div 512),
                genExeInstr cid False False ((i * rowSizeC memMap + j) mod 512)])
            [0..N dims - 1]))
        [startR..endR])
     @ [genEndInstr cid False False 0]"

section \<open>Evaluating the text functions\<close>

lemma hex_digits_lt: "n < 16 \<Longrightarrow> hex_digits n = [''0123456789abcdef'' ! n]"
  by (subst hex_digits.simps) simp

lemma hex_digits_ge:
  "16 \<le> n \<Longrightarrow> hex_digits n = hex_digits (n div 16) @ [''0123456789abcdef'' ! (n mod 16)]"
  by (subst hex_digits.simps) simp

lemma dec_digits_lt: "n < 10 \<Longrightarrow> dec_digits n = [''0123456789'' ! n]"
  by (subst dec_digits.simps) simp

lemma dec_digits_ge:
  "10 \<le> n \<Longrightarrow> dec_digits n = dec_digits (n div 10) @ [''0123456789'' ! (n mod 10)]"
  by (subst dec_digits.simps) simp

lemma replicate_small:
  "replicate 1 x = [x]" "replicate 2 x = [x, x]" "replicate 3 x = [x, x, x]"
  "replicate 4 x = [x, x, x, x]" "replicate 5 x = [x, x, x, x, x]"
  by (simp_all add: numeral_eq_Suc)

lemmas eval_text = hex_digits_lt hex_digits_ge dec_digits_lt dec_digits_ge
  to_hex_string_def setw6_def to_string_def replicate_small

section \<open>The encoder and its inverse\<close>

lemma hex_char_val: "d < 16 \<Longrightarrow> hex_digit_val (''0123456789abcdef'' ! d) = Some d"
proof -
  have "\<forall>d\<in>set [0..<16]. hex_digit_val (''0123456789abcdef'' ! d) = Some d"
    by code_simp
  moreover assume "d < 16"
  ultimately show ?thesis by simp
qed

lemma hex_val_append:
  "hex_val acc (xs @ ys) = (case hex_val acc xs of None \<Rightarrow> None | Some a \<Rightarrow> hex_val a ys)"
  by (induction xs arbitrary: acc) (auto split: option.splits)

lemma hex_val_digits: "hex_val acc (hex_digits n) = Some (acc * 16 ^ length (hex_digits n) + n)"
proof (induction n arbitrary: acc rule: hex_digits.induct)
  case (1 n)
  show ?case
  proof (cases "n < 16")
    case True
    then show ?thesis
      by (subst (1 2) hex_digits.simps) (simp add: hex_char_val)
  next
    case False
    have m: "n mod 16 < 16" by simp
    from False 1 show ?thesis
      by (subst (1 2) hex_digits.simps) (simp add: hex_val_append hex_char_val [OF m] algebra_simps)
  qed
qed

lemma hex_val_zeros: "hex_val 0 (replicate k CHR ''0'' @ s) = hex_val 0 s"
  by (induction k) (simp_all add: hex_digit_val_def)

lemma hex_digits_length: "0 < k \<Longrightarrow> n < 16 ^ k \<Longrightarrow> length (hex_digits n) \<le> k"
proof (induction n arbitrary: k rule: hex_digits.induct)
  case (1 n)
  show ?case
  proof (cases "n < 16")
    case True
    with 1 show ?thesis by (subst hex_digits.simps) simp
  next
    case False
    with 1(2,3) have k1: "1 < k" by (cases "k = 1") auto
    then obtain j where j: "k = Suc j" "0 < j" by (cases k) auto
    with 1(3) have "n div 16 < 16 ^ j" by (simp add: less_mult_imp_div_less mult.commute)
    with 1(1) [OF False j(2)] have "length (hex_digits (n div 16)) \<le> j" by simp
    with False j show ?thesis by (subst hex_digits.simps) simp
  qed
qed

lemma hex_digits_nonempty: "hex_digits n \<noteq> []"
  by (subst hex_digits.simps) simp

lemma to_hex_string_length: "length (to_hex_string v) = 6"
proof -
  have "v AND 0xFFFFFF \<le> 0xFFFFFF"
    by (rule AND_upper2) simp
  then have "nat (v AND 0xFFFFFF) < 16777216" by linarith
  then have "nat (v AND 0xFFFFFF) < 16 ^ 6" by simp
  then have "length (hex_digits (nat (v AND 0xFFFFFF))) \<le> 6"
    by (intro hex_digits_length) simp_all
  then show ?thesis by (simp add: to_hex_string_def setw6_def)
qed

lemma hex_val_to_hex_string: "hex_val 0 (to_hex_string v) = Some (nat (v AND 0xFFFFFF))"
  by (simp add: to_hex_string_def setw6_def hex_val_zeros hex_val_digits)



lemma and_masks:
  "(x::int) AND 3 = take_bit 2 x" "(x::int) AND 0x3F = take_bit 6 x"
  "(x::int) AND 0x1FF = take_bit 9 x" "(x::int) AND 0xFFFFFF = take_bit 24 x"
  by (simp_all add: take_bit_eq_mask mask_eq_exp_minus_1)

lemma opcode_bits_take: "take_bit 2 (opcode_bits opc) = opcode_bits opc"
  by (cases opc) simp_all

lemma spec_word_alt:
  "spec_word opc c r w a =
     push_bit 17 (take_bit 2 (opcode_bits opc)) OR push_bit 11 (take_bit 6 c)
       OR push_bit 10 (of_bool r) OR push_bit 9 (of_bool w) OR take_bit 9 a"
  by (simp add: spec_word_def and_masks opcode_bits_take)

lemma instr_word_range:
  "0 \<le> spec_word opc c r w a \<and> spec_word opc c r w a < 2 ^ 19"
proof -
  have "take_bit 19 (spec_word opc c r w a) = spec_word opc c r w a"
    unfolding spec_word_alt
    by (rule bit_eqI) (auto simp add: bit_simps)
  then show ?thesis
    by (metis take_bit_nonnegative take_bit_int_less_exp)
qed

lemma field_op: "drop_bit 17 (spec_word opc c r w a) AND 3 = opcode_bits opc"
proof -
  have "take_bit 2 (drop_bit 17 (spec_word opc c r w a)) = take_bit 2 (opcode_bits opc)"
    unfolding spec_word_alt
    by (rule bit_eqI) (auto simp add: bit_simps)
  then show ?thesis by (simp add: and_masks opcode_bits_take)
qed

lemma field_core: "drop_bit 11 (spec_word opc c r w a) AND 0x3F = c AND 0x3F"
  unfolding spec_word_alt and_masks
  by (rule bit_eqI) (auto simp add: bit_simps)

lemma field_read: "bit (spec_word opc c r w a) 10 = r"
  unfolding spec_word_alt
  by (auto simp add: bit_simps)

lemma field_write: "bit (spec_word opc c r w a) 9 = w"
  unfolding spec_word_alt
  by (auto simp add: bit_simps)

lemma field_addr: "spec_word opc c r w a AND 0x1FF = a AND 0x1FF"
  unfolding spec_word_alt and_masks
  by (rule bit_eqI) (auto simp add: bit_simps)

lemma spec_word_24: "spec_word opc c r w a AND 0xFFFFFF = spec_word opc c r w a"
proof -
  have "spec_word opc c r w a < 2 ^ 24"
    using instr_word_range [of opc c r w a] by simp
  then show ?thesis
    using instr_word_range [of opc c r w a]
    by (simp add: and_masks take_bit_int_eq_self)
qed

lemma opcode_of_bits: "opcode_of (opcode_bits opc) = opc"
  by (cases opc) (simp_all add: opcode_of_def)

lemma decode_spec_word:
  "decodeInstr (to_hex_string (spec_word opc c r w a)) =
     Some \<lparr>instr_opcode = opc, instr_coreId = c AND 0x3F, instr_read = r,
           instr_write = w, instr_address = a AND 0x1FF\<rparr>"
proof -
  have nn: "int (nat (spec_word opc c r w a)) = spec_word opc c r w a"
    using instr_word_range [of opc c r w a] by simp
  have hv: "hex_val 0 (to_hex_string (spec_word opc c r w a)) = Some (nat (spec_word opc c r w a))"
    by (simp only: hex_val_to_hex_string spec_word_24)
  show ?thesis
    unfolding decodeInstr_def
    by (simp only: to_hex_string_length hv nn Let_def field_op field_core field_read
          field_write field_addr opcode_of_bits option.case simp_thms if_False)
qed

lemma gen_spec_word:
  "genProgInstr c r w a = to_hex_string (spec_word PROG c r w a)"
  "genExeInstr c r w a = to_hex_string (spec_word EXE c r w a)"
  "genEndInstr c r w a = to_hex_string (spec_word END c r w a)"
  by (simp_all add: genProgInstr_def genExeInstr_def genEndInstr_def spec_word_def Let_def)

lemma genNoOpInstr_eq: "genNoOpInstr = ''000000''"
  by code_simp

lemma encode_spec_word:
  "opc \<noteq> NOOP \<Longrightarrow> encodeInstr opc c r w a = to_hex_string (spec_word opc c r w a)"
  by (cases opc) (simp_all add: gen_spec_word)

lemma decode_noop:
  "decodeInstr ''000000'' =
     Some \<lparr>instr_opcode = NOOP, instr_coreId = 0, instr_read = False,
           instr_write = False, instr_address = 0\<rparr>"
  by (simp add: decodeInstr_def hex_digit_val_def opcode_of_def)

text \<open>
  C1 (as amended). For PROG, EXE and END, every integer coreId and address and both flags,
  the encoder yields the six-digit hexadecimal text of
  \<open>(opcode<<17) | ((coreId & 0x3F)<<11) | (read<<10) | (write<<9) | (address & 0x1FF)\<close>,
  and decoding that text gives back the opcode, the two flags, the coreId masked to 6
  bits and the address masked to 9 bits. The NOOP generator has no fields: its text is
  always \<open>000000\<close>, which decodes to NOOP with all fields zero.
\<close>

theorem encode_decode_roundtrip:
  "(opc \<noteq> NOOP \<longrightarrow>
      encodeInstr opc cid rd wr addr = to_hex_string (spec_word opc cid rd wr addr) \<and>
      decodeInstr (encodeInstr opc cid rd wr addr) =
        Some \<lparr>instr_opcode = opc, instr_coreId = cid AND 0x3F, instr_read = rd,
              instr_write = wr, instr_address = addr AND 0x1FF\<rparr>) \<and>
   length (encodeInstr opc cid rd wr addr) = 6 \<and>
   encodeInstr NOOP cid rd wr addr = ''000000'' \<and>
   decodeInstr (encodeInstr NOOP cid rd wr addr) =
     Some \<lparr>instr_opcode = NOOP, instr_coreId = 0, instr_read = False,
           instr_write = False, instr_address = 0\<rparr>"
proof -
  have len: "length (encodeInstr opc cid rd wr addr) = 6"
    by (cases opc) (simp_all add: gen_spec_word to_hex_string_length genNoOpInstr_eq)
  have enc: "opc \<noteq> NOOP \<Longrightarrow>
      encodeInstr opc cid rd wr addr = to_hex_string (spec_word opc cid rd wr addr)"
    by (rule encode_spec_word)
  have rt: "opc \<noteq> NOOP \<Longrightarrow> decodeInstr (encodeInstr opc cid rd wr addr) =
        Some \<lparr>instr_opcode = opc, instr_coreId = cid AND 0x3F, instr_read = rd,
              instr_write = wr, instr_address = addr AND 0x1FF\<rparr>"
    using enc decode_spec_word [of opc cid rd wr addr] by presburger
  have noop: "encodeInstr NOOP cid rd wr addr = ''000000''"
    by (simp only: encodeInstr.simps genNoOpInstr_eq)
  have dn: "decodeInstr (encodeInstr NOOP cid rd wr addr) =
     Some \<lparr>instr_opcode = NOOP, instr_coreId = 0, instr_read = False,
           instr_write = False, instr_address = 0\<rparr>"
    by (simp only: noop decode_noop)
  from len enc rt noop dn show ?thesis by blast
qed

theorem encode_decode_roundtrip_witness:
  "EXE \<noteq> NOOP \<and>
   decodeInstr (encodeInstr EXE 70 True False 1000) =
     Some \<lparr>instr_opcode = EXE, instr_coreId = 6, instr_read = True,
           instr_write = False, instr_address = 488\<rparr> \<and>
   encodeInstr EXE 70 True False 1000 = ''0435e8''"
proof -
  note t = encode_decode_roundtrip [of EXE 70 True False 1000]
  have ne: "EXE \<noteq> NOOP" by simp
  have w: "to_hex_string (spec_word EXE 70 True False 1000) = ''0435e8''"
    by (simp add: spec_word_def eval_text)
  have m: "(70::int) AND 0x3F = 6" "(1000::int) AND 0x1FF = 488"
    by simp_all
  from t ne have "decodeInstr (encodeInstr EXE 70 True False 1000) =
     Some \<lparr>instr_opcode = EXE, instr_coreId = 70 AND 0x3F, instr_read = True,
           instr_write = False, instr_address = 1000 AND 0x1FF\<rparr>"
    by blast
  then have d: "decodeInstr (encodeInstr EXE 70 True False 1000) =
     Some \<lparr>instr_opcode = EXE, instr_coreId = 6, instr_read = True,
           instr_write = False, instr_address = 488\<rparr>"
    by (simp only: m)
  from t ne have "encodeInstr EXE 70 True False 1000 =
      to_hex_string (spec_word EXE 70 True False 1000)"
    by blast
  then have e: "encodeInstr EXE 70 True False 1000 = ''0435e8''"
    by (simp only: w)
  from ne d e show ?thesis by blast
qed

theorem noop_fields_counterexample:
  "\<not> (encodeInstr NOOP 1 False False 0 = to_hex_string (spec_word NOOP 1 False False 0) \<and>
      decodeInstr (encodeInstr NOOP 1 False False 0) =
        Some \<lparr>instr_opcode = NOOP, instr_coreId = 1 AND 0x3F, instr_read = False,
              instr_write = False, instr_address = 0 AND 0x1FF\<rparr>)"
proof -
  have "to_hex_string (spec_word NOOP 1 False False 0) = ''000800''"
    by (simp add: spec_word_def eval_text)
  then show ?thesis
    by (simp add: genNoOpInstr_eq)
qed

section \<open>Machine arithmetic in range\<close>

lemma i32_id: "int32 x \<Longrightarrow> i32 x = x"
  unfolding int32_def i32_def
  by (rule signed_take_bit_int_eq_self) simp_all

lemma i32_range: "int32 (i32 x)"
  unfolding int32_def i32_def
  using signed_take_bit_int_greater_eq_minus_exp [of 31 x] signed_take_bit_int_less_exp [of 31 x]
  by simp

lemma i32_mod: "i32 x = (x + 2147483648) mod 4294967296 - 2147483648"
  by (simp add: i32_def signed_take_bit_eq_take_bit_shift take_bit_eq_mod)

lemma sdiv_nonneg: "0 \<le> a \<Longrightarrow> 0 < b \<Longrightarrow> a sdiv b = a div (b::int)"
  by (cases "a = 0") (simp_all add: signed_divide_int_def)

lemma smod_nonneg: "0 \<le> a \<Longrightarrow> 0 < b \<Longrightarrow> a smod b = a mod (b::int)"
  by (cases "a = 0") (simp_all add: signed_modulo_int_def)

lemma ceil_div_real: "ceil_div a b = \<lceil>real_of_int a / real_of_int b\<rceil>"
  by (simp add: ceil_div_def ceiling_divide_eq_div)

section \<open>The memory layout\<close>

lemma ceil_512: "(x + 511) div 512 = \<lceil>real_of_int x / 512\<rceil>"
proof -
  have "\<lceil>real_of_int x / real_of_int 512\<rceil> = - (- x div 512)"
    by (rule ceiling_divide_eq_div)
  also have "- (- x div 512) = (x + 511) div 512"
    by arith
  finally show ?thesis by simp
qed

lemma rows_occupied:
  assumes "0 < s" "s + 512 < 2 ^ 31"
  shows "csub (cadd s MEMORY_ROW_SIZE) 1 sdiv MEMORY_ROW_SIZE = \<lceil>real_of_int s / 512\<rceil>"
    and "0 < csub (cadd s MEMORY_ROW_SIZE) 1 sdiv MEMORY_ROW_SIZE"
    and "csub (cadd s MEMORY_ROW_SIZE) 1 sdiv MEMORY_ROW_SIZE < 2 ^ 22"
proof -
  have a: "cadd s 512 = s + 512"
    using assms by (simp add: cadd_def i32_id int32_def)
  have b: "csub (s + 512) 1 = s + 511"
    using assms by (simp add: csub_def i32_id int32_def)
  have c: "(s + 511) sdiv 512 = (s + 511) div 512"
    using assms by (simp add: sdiv_nonneg)
  have e: "csub (cadd s MEMORY_ROW_SIZE) 1 sdiv MEMORY_ROW_SIZE = (s + 511) div 512"
    unfolding MEMORY_ROW_SIZE_def by (simp only: a b c)
  show "csub (cadd s MEMORY_ROW_SIZE) 1 sdiv MEMORY_ROW_SIZE = \<lceil>real_of_int s / 512\<rceil>"
    by (simp only: e ceil_512)
  have "0 < (s + 511) div 512" using assms by simp
  then show "0 < csub (cadd s MEMORY_ROW_SIZE) 1 sdiv MEMORY_ROW_SIZE"
    by (simp only: e)
  have "(s + 511) div 512 < 2 ^ 22" using assms by simp
  then show "csub (cadd s MEMORY_ROW_SIZE) 1 sdiv MEMORY_ROW_SIZE < 2 ^ 22"
    by (simp only: e)
qed

text \<open>
  C4 (as amended). For every Dimensions with M, N, K > 0 whose products satisfy
  \<open>M*K + 512 < 2^31\<close> and \<open>K*N + 512 < 2^31\<close> (so that the 32-bit computation of the
  element and row counts does not overflow), the MemoryMap of the planner has
  \<open>baseAddrA = 0 < baseAddrB < baseAddrC\<close>, \<open>baseAddrB - baseAddrA = ceil(M*K/512)\<close>
  and \<open>baseAddrC - baseAddrB = ceil(K*N/512)\<close>: A, B and C lie back to back in this
  order.
\<close>

theorem memory_layout_back_to_back:
  assumes "0 < M dims" "0 < N dims" "0 < K dims"
    and "M dims * K dims + 512 < 2 ^ 31" "K dims * N dims + 512 < 2 ^ 31"
  shows "baseAddrA (optimizeMemoryLayout dims) = 0 \<and>
         0 < baseAddrB (optimizeMemoryLayout dims) \<and>
         baseAddrB (optimizeMemoryLayout dims) < baseAddrC (optimizeMemoryLayout dims) \<and>
         baseAddrB (optimizeMemoryLayout dims) - baseAddrA (optimizeMemoryLayout dims)
           = \<lceil>real_of_int (M dims * K dims) / 512\<rceil> \<and>
         baseAddrC (optimizeMemoryLayout dims) - baseAddrB (optimizeMemoryLayout dims)
           = \<lceil>real_of_int (K dims * N dims) / 512\<rceil>"
proof -
  let ?sA = "M dims * K dims" and ?sB = "K dims * N dims"
  have pA: "0 < ?sA" and pB: "0 < ?sB" using assms by simp_all
  have "int32 ?sA" using assms(4) pA unfolding int32_def by linarith
  then have sA: "cmul (M dims) (K dims) = ?sA"
    by (simp add: cmul_def i32_id)
  have "int32 ?sB" using assms(5) pB unfolding int32_def by linarith
  then have sB: "cmul (K dims) (N dims) = ?sB"
    by (simp add: cmul_def i32_id)
  let ?rA = "csub (cadd ?sA MEMORY_ROW_SIZE) 1 sdiv MEMORY_ROW_SIZE"
  let ?rB = "csub (cadd ?sB MEMORY_ROW_SIZE) 1 sdiv MEMORY_ROW_SIZE"
  note rA = rows_occupied [OF pA assms(4)] and rB = rows_occupied [OF pB assms(5)]
  have sum: "cadd ?rA ?rB = ?rA + ?rB"
    using rA(2,3) rB(2,3) by (simp add: cadd_def i32_id int32_def)
  have bA: "baseAddrA (optimizeMemoryLayout dims) = 0"
    by (simp add: optimizeMemoryLayout_def Let_def)
  have bB: "baseAddrB (optimizeMemoryLayout dims) = ?rA"
    by (simp add: optimizeMemoryLayout_def Let_def sA)
  have bC: "baseAddrC (optimizeMemoryLayout dims) = ?rA + ?rB"
    by (simp add: optimizeMemoryLayout_def Let_def sA sB sum)
  show ?thesis
    unfolding bA bB bC using rA rB by simp
qed

theorem memory_layout_back_to_back_witness:
  "0 < M \<lparr>M = 4, N = 3, K = 2\<rparr> \<and> 0 < N \<lparr>M = 4, N = 3, K = 2\<rparr> \<and>
   0 < K \<lparr>M = 4, N = 3, K = 2\<rparr> \<and>
   baseAddrA (optimizeMemoryLayout \<lparr>M = 4, N = 3, K = 2\<rparr>) = 0 \<and>
   0 < baseAddrB (optimizeMemoryLayout \<lparr>M = 4, N = 3, K = 2\<rparr>) \<and>
   baseAddrB (optimizeMemoryLayout \<lparr>M = 4, N = 3, K = 2\<rparr>)
     < baseAddrC (optimizeMemoryLayout \<lparr>M = 4, N = 3, K = 2\<rparr>)"
proof -
  let ?d = "\<lparr>M = 4, N = 3, K = 2\<rparr>"
  have h: "0 < M ?d" "0 < N ?d" "0 < K ?d"
    "M ?d * K ?d + 512 < 2 ^ 31" "K ?d * N ?d + 512 < 2 ^ 31"
    by simp_all
  from memory_layout_back_to_back [OF h] h(1,2,3) show ?thesis by blast
qed

text \<open>
  Without the bound the claim fails: for M = K = 65536 the product \<open>M*K = 2^32\<close> wraps
  to 0 in 32 bits, no row is reserved for A, and B starts at row 0 as well.
\<close>

theorem memory_layout_overflow_counterexample:
  "0 < M \<lparr>M = 65536, N = 1, K = 65536\<rparr> \<and> 0 < N \<lparr>M = 65536, N = 1, K = 65536\<rparr> \<and>
   0 < K \<lparr>M = 65536, N = 1, K = 65536\<rparr> \<and>
   \<not> (0 < baseAddrB (optimizeMemoryLayout \<lparr>M = 65536, N = 1, K = 65536\<rparr>))"
proof -
  have a: "cmul 65536 65536 = 0"
    by (simp add: cmul_def i32_mod)
  have b: "csub (cadd 0 512) 1 sdiv 512 = 0"
    by (simp add: cadd_def csub_def i32_mod signed_divide_int_def)
  have "baseAddrB (optimizeMemoryLayout \<lparr>M = 65536, N = 1, K = 65536\<rparr>) = 0"
    by (simp add: optimizeMemoryLayout_def Let_def MEMORY_ROW_SIZE_def a b)
  then show ?thesis by simp
qed

section \<open>The work partition\<close>

lemma distributeLoop_step:
  "core < numCores \<Longrightarrow>
   distributeLoop dims numCores rowsPerCore core assignments =
     (let work = \<lparr>coreId = core,
                  startRow = cmul core rowsPerCore,
                  endRow = min (csub (cmul (cadd core 1) rowsPerCore) 1) (csub (M dims) 1)\<rparr>
      in distributeLoop dims numCores rowsPerCore (core + 1)
           (if startRow work \<le> endRow work then assignments @ [work] else assignments))"
  by (subst distributeLoop.simps) simp

lemma distributeLoop_done:
  "\<not> core < numCores \<Longrightarrow> distributeLoop dims numCores rowsPerCore core assignments = assignments"
  by (subst distributeLoop.simps) simp

lemma loop_body_exact:
  assumes "1 \<le> r" "0 < m" "m < 2 ^ 31" "c * r < 2 ^ 31" "0 \<le> core" "core < c"
  shows "cmul core r = core * r"
    and "csub (cmul (cadd core 1) r) 1 = (core + 1) * r - 1"
    and "csub m 1 = m - 1"
proof -
  have c1: "core + 1 \<le> c" using assms by simp
  have r0: "0 \<le> r" using assms by simp
  have up: "(core + 1) * r \<le> c * r" using c1 r0 by (rule mult_right_mono)
  have lo: "0 \<le> core * r" using assms by simp
  have le: "core * r \<le> (core + 1) * r" using r0 by (simp add: mult_right_mono)
  have a: "cadd core 1 = core + 1"
  proof -
    have "core + 1 \<le> (core + 1) * r" using assms by (simp add: mult_le_cancel_left1)
    with up assms(4) have "core + 1 < 2 ^ 31" by linarith
    with assms(5) show ?thesis by (simp add: cadd_def i32_id int32_def)
  qed
  show "cmul core r = core * r"
    using lo le up assms(4) by (simp add: cmul_def i32_id int32_def)
  have b: "cmul (core + 1) r = (core + 1) * r"
  proof -
    have "int32 ((core + 1) * r)" using lo le up assms(4) unfolding int32_def by linarith
    then show ?thesis by (simp add: cmul_def i32_id)
  qed
  have "1 * 1 \<le> (core + 1) * r" using assms by (intro mult_mono) simp_all
  then have "int32 ((core + 1) * r - 1)" using up assms(4) unfolding int32_def by linarith
  then show "csub (cmul (cadd core 1) r) 1 = (core + 1) * r - 1"
    by (simp add: a b csub_def i32_id)
  show "csub m 1 = m - 1" using assms by (simp add: csub_def i32_id int32_def)
qed

lemma distributeLoop_closed:
  assumes "1 \<le> r" "0 < M dims" "M dims < 2 ^ 31" "c * r < 2 ^ 31"
  shows "0 \<le> core \<Longrightarrow>
    distributeLoop dims c r core acc =
      acc @ map (\<lambda>n. \<lparr>coreId = n, startRow = n * r,
                         endRow = min ((n + 1) * r - 1) (M dims - 1)\<rparr>)
              (filter (\<lambda>n. n * r \<le> M dims - 1) [core..c - 1])"
proof (induction "nat (c - core)" arbitrary: core acc)
  case 0
  then have "\<not> core < c" by simp
  then show ?case by (simp add: distributeLoop_done)
next
  case (Suc k)
  then have lt: "core < c" by linarith
  note ex = loop_body_exact [OF assms(1) assms(2) assms(3) assms(4) Suc.prems lt]
  have up: "[core..c - 1] = core # [core + 1..c - 1]"
    using lt by (simp add: upto_rec1)
  have k: "k = nat (c - (core + 1))" using Suc.hyps(2) by linarith
  have c0: "0 \<le> core + 1" using Suc.prems by simp
  have le: "core * r \<le> (core + 1) * r - 1" using assms(1) by (simp add: algebra_simps)
  show ?case
    apply (subst distributeLoop_step [OF lt])
    apply (simp only: Let_def ex WorkAssignment.simps)
    apply (subst Suc.hyps(1) [OF k c0])
    using le apply (simp add: up)
    done
qed

lemma ceil_div_bounds:
  assumes "0 < c"
  shows "m \<le> c * ceil_div m c" and "c * ceil_div m c < m + c"
proof -
  have e: "- m = c * (- m div c) + (- m) mod c" by simp
  have "0 \<le> (- m) mod c" "(- m) mod c < c" using assms by simp_all
  with e have "c * (- m div c) \<le> - m" "- m < c * (- m div c) + c" by linarith+
  then show "m \<le> c * ceil_div m c" and "c * ceil_div m c < m + c"
    by (simp_all add: ceil_div_def)
qed

lemma ceil_div_pos:
  assumes "0 < c" "0 < m"
  shows "1 \<le> ceil_div m c"
proof (rule ccontr)
  assume "\<not> 1 \<le> ceil_div m c"
  then have "ceil_div m c \<le> 0" by simp
  then have "c * ceil_div m c \<le> 0" using assms(1) by (simp add: mult_le_0_iff)
  with ceil_div_bounds(1) [OF assms(1), of m] assms(2) show False by linarith
qed

lemma filter_upto_prefix:
  assumes "\<And>n. a \<le> n \<Longrightarrow> n \<le> b \<Longrightarrow> (P n \<longleftrightarrow> n \<le> k)" "k \<le> b" "a \<le> k + 1"
  shows "filter P [a..b] = [a..k]"
proof (cases "k = b")
  case True
  have "filter P [a..b] = [a..b]"
    using assms(1) True by (intro filter_True) auto
  with True show ?thesis by simp
next
  case False
  with assms(2) have "k + 1 \<le> b" by simp
  with assms(3) have s: "[a..b] = [a..k] @ [k + 1..b]"
    using upto_split1 [of a "k + 1" b] by simp
  have t: "filter P [a..k] = [a..k]"
    using assms(1,2) by (intro filter_True) auto
  have f: "filter P [k + 1..b] = []"
    using assms(1,3) by (intro filter_False) auto
  show ?thesis by (simp add: s t f)
qed

lemma distributeWork_closed:
  assumes "0 < M dims" "1 \<le> c" "c \<le> M dims" "c * ceil_div (M dims) c < 2 ^ 31"
  shows "distributeWork dims c =
     map (\<lambda>n. \<lparr>coreId = n, startRow = n * ceil_div (M dims) c,
                endRow = min ((n + 1) * ceil_div (M dims) c - 1) (M dims - 1)\<rparr>)
         [0..ceil_div (M dims) (ceil_div (M dims) c) - 1]"
proof -
  let ?m = "M dims" and ?r = "ceil_div (M dims) c"
  let ?k = "ceil_div ?m ?r"
  have c0: "0 < c" using assms(2) by simp
  have r1: "1 \<le> ?r" using c0 assms(1) by (rule ceil_div_pos)
  then have r0: "0 < ?r" by simp
  note rb = ceil_div_bounds [OF c0, of ?m]
  note kb = ceil_div_bounds [OF r0, of ?m]
  have k1: "1 \<le> ?k" using r0 assms(1) by (rule ceil_div_pos)
  have m31: "?m < 2 ^ 31" using rb(1) assms(4) by linarith
  have eff: "effectiveCores dims c = c"
    using assms(3) by (simp add: effectiveCores_def)
  have kc: "?k \<le> c"
  proof (rule ccontr)
    assume "\<not> ?k \<le> c"
    then have "c + 1 \<le> ?k" by simp
    then have "?r * (c + 1) \<le> ?r * ?k" using r0 by (intro mult_left_mono) simp_all
    with kb(2) rb(1) show False by (simp add: algebra_simps)
  qed
  have P: "(n * ?r \<le> ?m - 1) \<longleftrightarrow> n \<le> ?k - 1" for n
  proof
    assume a: "n * ?r \<le> ?m - 1"
    show "n \<le> ?k - 1"
    proof (rule ccontr)
      assume "\<not> n \<le> ?k - 1"
      then have "?k \<le> n" by simp
      then have "?r * ?k \<le> ?r * n" using r0 by (intro mult_left_mono) simp_all
      with kb(1) a show False by (simp add: algebra_simps)
    qed
  next
    assume "n \<le> ?k - 1"
    then have "?r * n \<le> ?r * (?k - 1)" using r0 by (intro mult_left_mono) simp_all
    with kb(2) show "n * ?r \<le> ?m - 1" by (simp add: algebra_simps)
  qed
  have f: "filter (\<lambda>n. n * ?r \<le> ?m - 1) [0..c - 1] = [0..?k - 1]"
  proof (rule filter_upto_prefix)
    fix n :: int
    show "(n * ?r \<le> ?m - 1) = (n \<le> ?k - 1)" by (rule P)
  next
    show "?k - 1 \<le> c - 1" using kc by simp
  next
    show "0 \<le> ?k - 1 + 1" using k1 by simp
  qed
  have "distributeWork dims c = distributeLoop dims c ?r 0 []"
    by (simp add: distributeWork_def eff Let_def)
  also have "\<dots> = [] @ map (\<lambda>n. \<lparr>coreId = n, startRow = n * ?r,
                endRow = min ((n + 1) * ?r - 1) (?m - 1)\<rparr>)
         (filter (\<lambda>n. n * ?r \<le> ?m - 1) [0..c - 1])"
    by (rule distributeLoop_closed [OF r1 assms(1) m31 assms(4)]) simp
  also have "\<dots> = map (\<lambda>n. \<lparr>coreId = n, startRow = n * ?r,
                endRow = min ((n + 1) * ?r - 1) (?m - 1)\<rparr>) [0..?k - 1]"
    by (simp only: f append_Nil)
  finally show ?thesis .
qed

lemma partition_closed:
  fixes r k m :: int
  assumes r1: "1 \<le> r" and k1: "1 \<le> k" and lo: "(k - 1) * r < m" and hi: "m \<le> k * r"
    and ws: "ws = map (\<lambda>n. \<lparr>coreId = n, startRow = n * r,
                                endRow = min ((n + 1) * r - 1) (m - 1)\<rparr>) [0..k - 1]"
  shows "ws \<noteq> [] \<and>
     (\<forall>i. Suc i < length ws \<longrightarrow>
          coreId (ws ! i) < coreId (ws ! Suc i) \<and> startRow (ws ! Suc i) = endRow (ws ! i) + 1) \<and>
     (\<forall>i. i < length ws \<longrightarrow> startRow (ws ! i) \<le> endRow (ws ! i)) \<and>
     startRow (hd ws) = 0 \<and> endRow (last ws) = m - 1 \<and>
     (\<forall>row. 0 \<le> row \<and> row \<le> m - 1 \<longrightarrow>
          (\<exists>!i. i < length ws \<and> startRow (ws ! i) \<le> row \<and> row \<le> endRow (ws ! i)))"
proof -
  have len: "length ws = nat k" by (simp add: ws)
  have nth: "ws ! i = \<lparr>coreId = int i, startRow = int i * r,
                       endRow = min ((int i + 1) * r - 1) (m - 1)\<rparr>" if "i < nat k" for i
    using that by (simp add: ws)
  have below: "(n + 1) * r \<le> m - 1 + 1" if "n + 1 \<le> k - 1" for n
  proof -
    have "r * (n + 1) \<le> r * (k - 1)" using that r1 by (intro mult_left_mono) simp_all
    with lo show ?thesis by (simp add: algebra_simps)
  qed
  have inner: "endRow (ws ! i) = (int i + 1) * r - 1" if "Suc i < nat k" for i
  proof -
    have "(int i + 1) * r \<le> m - 1 + 1" using that by (intro below) linarith
    then show ?thesis using that by (simp add: nth)
  qed
  have start: "int i * r \<le> m - 1" if "i < nat k" for i
  proof -
    have "r * int i \<le> r * (k - 1)" using that r1 by (intro mult_left_mono) simp_all
    with lo show ?thesis by (simp add: algebra_simps)
  qed
  have c1: "ws \<noteq> []" using k1 len by auto
  have c2: "\<forall>i. Suc i < length ws \<longrightarrow>
          coreId (ws ! i) < coreId (ws ! Suc i) \<and> startRow (ws ! Suc i) = endRow (ws ! i) + 1"
  proof (intro allI impI)
    fix i assume a: "Suc i < length ws"
    then have i: "Suc i < nat k" "i < nat k" by (simp_all add: len)
    have s: "startRow (ws ! Suc i) = (int i + 1) * r" "coreId (ws ! Suc i) = int i + 1"
      by (simp_all add: nth [OF i(1)])
    have c: "coreId (ws ! i) = int i" by (simp add: nth [OF i(2)])
    show "coreId (ws ! i) < coreId (ws ! Suc i) \<and> startRow (ws ! Suc i) = endRow (ws ! i) + 1"
      by (simp only: s c inner [OF i(1)]) simp
  qed
  have c3: "\<forall>i. i < length ws \<longrightarrow> startRow (ws ! i) \<le> endRow (ws ! i)"
  proof (intro allI impI)
    fix i assume "i < length ws"
    then have i: "i < nat k" by (simp add: len)
    have "int i * r \<le> (int i + 1) * r - 1" using r1 by (simp add: algebra_simps)
    with start [OF i] show "startRow (ws ! i) \<le> endRow (ws ! i)"
      by (simp add: nth [OF i])
  qed
  have c4: "startRow (hd ws) = 0"
  proof -
    have "hd ws = ws ! 0" using c1 by (simp add: hd_conv_nth)
    with k1 show ?thesis by (simp add: nth)
  qed
  have c5: "endRow (last ws) = m - 1"
  proof -
    have "last ws = ws ! (nat k - 1)" using c1 by (simp add: last_conv_nth len)
    moreover have "int (nat k - 1) = k - 1" using k1 by simp
    ultimately have "endRow (last ws) = min (k * r - 1) (m - 1)"
      using k1 by (simp add: nth)
    with hi show ?thesis by simp
  qed
  have c6: "\<forall>row. 0 \<le> row \<and> row \<le> m - 1 \<longrightarrow>
          (\<exists>!i. i < length ws \<and> startRow (ws ! i) \<le> row \<and> row \<le> endRow (ws ! i))"
  proof (intro allI impI)
    fix row :: int assume row: "0 \<le> row \<and> row \<le> m - 1"
    have r0: "0 < r" using r1 by simp
    let ?q = "row div r"
    have q0: "0 \<le> ?q" using row r0 by (simp add: pos_imp_zdiv_nonneg_iff)
    have e: "r * ?q + row mod r = row" by simp
    have hi': "m \<le> r * k" using hi by (simp add: mult.commute)
    have mb: "0 \<le> row mod r" "row mod r < r" using r0 by simp_all
    have qk: "?q < k"
    proof (rule ccontr)
      assume "\<not> ?q < k"
      then have "r * k \<le> r * ?q" using r0 by (intro mult_left_mono) simp_all
      with e mb hi' row show False by linarith
    qed
    have uniq: "int i = ?q" if "i < nat k" "startRow (ws ! i) \<le> row" "row \<le> endRow (ws ! i)" for i
    proof -
      from that have "int i * r \<le> row" "row \<le> (int i + 1) * r - 1" by (simp_all add: nth)
      then have "row = r * int i + (row - r * int i)" "0 \<le> row - r * int i" "row - r * int i < r"
        by (simp_all add: algebra_simps)
      then show ?thesis by (metis int_div_pos_eq)
    qed
    show "\<exists>!i. i < length ws \<and> startRow (ws ! i) \<le> row \<and> row \<le> endRow (ws ! i)"
    proof (rule ex1I [of _ "nat ?q"])
      have i: "nat ?q < nat k" using q0 qk by simp
      have "(?q + 1) * r = r * ?q + r" "?q * r = r * ?q" by (simp_all add: algebra_simps)
      with e mb have "?q * r \<le> row" "row \<le> (?q + 1) * r - 1"
        by linarith+
      with row i q0 show "nat ?q < length ws \<and> startRow (ws ! nat ?q) \<le> row \<and> row \<le> endRow (ws ! nat ?q)"
        by (simp add: len nth)
    next
      fix i assume "i < length ws \<and> startRow (ws ! i) \<le> row \<and> row \<le> endRow (ws ! i)"
      then have "int i = ?q" by (intro uniq) (simp_all add: len)
      then show "i = nat ?q" by simp
    qed
  qed
  from c1 c2 c3 c4 c5 c6 show ?thesis by blast
qed

lemmas eval_int = cadd_def csub_def cmul_def i32_mod ceil_div_def effectiveCores_def
  MEMORY_ROW_SIZE_def signed_divide_int_def signed_modulo_int_def

lemma distributeWork_5_4:
  "distributeWork \<lparr>M = 5, N = 3, K = 2\<rparr> 4 =
     [\<lparr>coreId = 0, startRow = 0, endRow = 1\<rparr>,
      \<lparr>coreId = 1, startRow = 2, endRow = 3\<rparr>,
      \<lparr>coreId = 2, startRow = 4, endRow = 4\<rparr>]"
  by (simp add: distributeWork_def distributeLoop_step distributeLoop_done eval_int Let_def)

lemma distributeWork_max_3:
  "distributeWork \<lparr>M = 2147483647, N = 1, K = 1\<rparr> 3 =
     [\<lparr>coreId = 0, startRow = 0, endRow = 715827882\<rparr>,
      \<lparr>coreId = 1, startRow = 715827883, endRow = 1431655765\<rparr>]"
  by (simp add: distributeWork_def distributeLoop_step distributeLoop_done eval_int Let_def)

lemma partition_no_overflow:
  assumes "0 < m" "1 \<le> c" "c \<le> m" "m \<le> 2 ^ 30"
  shows "c * ceil_div m c < 2 ^ 31"
proof -
  have "0 < c" using assms(2) by simp
  from ceil_div_bounds(2) [OF this, of m] assms show ?thesis by simp
qed

text \<open>
  C2 (as amended). For every Dimensions with M > 0 and every requested core count c with
  \<open>1 \<le> c \<le> M\<close> and \<open>c * ceil(M/c) < 2^31\<close> (no 32-bit overflow in the row bounds; this
  holds whenever \<open>M \<le> 2^30\<close>, lemma \<open>partition_no_overflow\<close>), the assignments of the work
  partitioner are ordered by strictly increasing coreId, each has startRow \<open>\<le>\<close> endRow,
  each next startRow is the previous endRow + 1, the first startRow is 0 and the last
  endRow is M - 1, and every row of \<open>[0, M-1]\<close> lies in exactly one assignment.
\<close>

theorem distributeWork_partition:
  assumes "0 < M dims" "1 \<le> c" "c \<le> M dims" "c * ceil_div (M dims) c < 2 ^ 31"
  shows "let ws = distributeWork dims c in
     ws \<noteq> [] \<and>
     (\<forall>i. Suc i < length ws \<longrightarrow>
          coreId (ws ! i) < coreId (ws ! Suc i) \<and> startRow (ws ! Suc i) = endRow (ws ! i) + 1) \<and>
     (\<forall>i. i < length ws \<longrightarrow> startRow (ws ! i) \<le> endRow (ws ! i)) \<and>
     startRow (hd ws) = 0 \<and> endRow (last ws) = M dims - 1 \<and>
     (\<forall>row. 0 \<le> row \<and> row \<le> M dims - 1 \<longrightarrow>
          (\<exists>!i. i < length ws \<and> startRow (ws ! i) \<le> row \<and> row \<le> endRow (ws ! i)))"
proof -
  let ?r = "ceil_div (M dims) c"
  let ?k = "ceil_div (M dims) ?r"
  have c0: "0 < c" using assms(2) by simp
  have r1: "1 \<le> ?r" using c0 assms(1) by (rule ceil_div_pos)
  then have r0: "0 < ?r" by simp
  have k1: "1 \<le> ?k" using r0 assms(1) by (rule ceil_div_pos)
  note kb = ceil_div_bounds [OF r0, of "M dims"]
  have lo: "(?k - 1) * ?r < M dims" using kb(2) by (simp add: algebra_simps)
  have hi: "M dims \<le> ?k * ?r" using kb(1) by (simp add: mult.commute)
  show ?thesis
    unfolding Let_def
    by (rule partition_closed [OF r1 k1 lo hi distributeWork_closed [OF assms]])
qed

theorem distributeWork_partition_witness:
  "0 < M \<lparr>M = 5, N = 3, K = 2\<rparr> \<and> (1::int) \<le> 4 \<and> 4 \<le> M \<lparr>M = 5, N = 3, K = 2\<rparr> \<and>
   4 * ceil_div (M \<lparr>M = 5, N = 3, K = 2\<rparr>) 4 < 2 ^ 31 \<and>
   (let ws = distributeWork \<lparr>M = 5, N = 3, K = 2\<rparr> 4 in
     ws \<noteq> [] \<and>
     (\<forall>i. Suc i < length ws \<longrightarrow>
          coreId (ws ! i) < coreId (ws ! Suc i) \<and> startRow (ws ! Suc i) = endRow (ws ! i) + 1) \<and>
     (\<forall>i. i < length ws \<longrightarrow> startRow (ws ! i) \<le> endRow (ws ! i)) \<and>
     startRow (hd ws) = 0 \<and> endRow (last ws) = M \<lparr>M = 5, N = 3, K = 2\<rparr> - 1 \<and>
     (\<forall>row. 0 \<le> row \<and> row \<le> M \<lparr>M = 5, N = 3, K = 2\<rparr> - 1 \<longrightarrow>
          (\<exists>!i. i < length ws \<and> startRow (ws ! i) \<le> row \<and> row \<le> endRow (ws ! i))))"
proof -
  let ?d = "\<lparr>M = 5, N = 3, K = 2\<rparr>"
  have h: "0 < M ?d" "(1::int) \<le> 4" "4 \<le> M ?d" "4 * ceil_div (M ?d) 4 < 2 ^ 31"
    by (simp_all add: ceil_div_def)
  from distributeWork_partition [OF h] h show ?thesis by blast
qed

text \<open>
  Without the bound the claim fails: for M = 2147483647 and 3 cores, rowsPerCore is
  715827883 and \<open>(core + 1) * rowsPerCore\<close> exceeds \<open>2^31 - 1\<close> for the third core; with
  the wrap-around its end row is negative, the core is dropped, and the rows from
  1431655766 on are assigned to no core.
\<close>

theorem distributeWork_overflow_counterexample:
  "0 < M \<lparr>M = 2147483647, N = 1, K = 1\<rparr> \<and> 0 < N \<lparr>M = 2147483647, N = 1, K = 1\<rparr> \<and>
   0 < K \<lparr>M = 2147483647, N = 1, K = 1\<rparr> \<and> (1::int) \<le> 3 \<and>
   3 \<le> M \<lparr>M = 2147483647, N = 1, K = 1\<rparr> \<and>
   \<not> (endRow (last (distributeWork \<lparr>M = 2147483647, N = 1, K = 1\<rparr> 3))
        = M \<lparr>M = 2147483647, N = 1, K = 1\<rparr> - 1)"
  by (simp add: distributeWork_max_3)

lemma ceil_div_self: "0 < m \<Longrightarrow> ceil_div m m = 1"
  by (simp add: ceil_div_def dvd_neg_div)

lemma ceil_div_one: "ceil_div m 1 = m"
  by (simp add: ceil_div_def)

text \<open>
  C6. For every Dimensions with M > 0 (M a 32-bit int) and every requested core count
  c > M, the partitioner clamps the core count to M, prints the warning, and returns
  exactly M assignments, the n-th with coreId n, startRow n and endRow n.
\<close>

theorem distributeWork_clamp:
  assumes "0 < M dims" "M dims < 2 ^ 31" "M dims < c"
  shows "effectiveCores dims c = M dims \<and>
         clampWarning dims c \<noteq> None \<and>
         length (distributeWork dims c) = nat (M dims) \<and>
         distributeWork dims c =
           map (\<lambda>n. \<lparr>coreId = n, startRow = n, endRow = n\<rparr>) [0..M dims - 1]"
proof -
  have eff: "effectiveCores dims c = M dims"
    using assms(3) by (simp add: effectiveCores_def)
  have w: "clampWarning dims c \<noteq> None"
    using assms(3) by (simp add: clampWarning_def)
  have same: "distributeWork dims c = distributeWork dims (M dims)"
    using assms(3) by (simp add: distributeWork_def effectiveCores_def)
  have h: "1 \<le> M dims" "M dims \<le> M dims" "M dims * ceil_div (M dims) (M dims) < 2 ^ 31"
    using assms(1,2) by (simp_all add: ceil_div_self)
  have "distributeWork dims (M dims) =
      map (\<lambda>n. \<lparr>coreId = n, startRow = n * 1, endRow = min ((n + 1) * 1 - 1) (M dims - 1)\<rparr>)
        [0..M dims - 1]"
    using distributeWork_closed [OF assms(1) h] assms(1)
    by (simp only: ceil_div_self ceil_div_one)
  also have "\<dots> = map (\<lambda>n. \<lparr>coreId = n, startRow = n, endRow = n\<rparr>) [0..M dims - 1]"
    by (rule map_cong) simp_all
  finally have cl: "distributeWork dims (M dims) =
      map (\<lambda>n. \<lparr>coreId = n, startRow = n, endRow = n\<rparr>) [0..M dims - 1]" .
  have len: "length (distributeWork dims c) = nat (M dims)"
    by (simp add: same cl)
  from eff w len same cl show ?thesis by simp
qed

theorem distributeWork_clamp_witness:
  "0 < M \<lparr>M = 2, N = 3, K = 4\<rparr> \<and> M \<lparr>M = 2, N = 3, K = 4\<rparr> < 2 ^ 31 \<and>
   M \<lparr>M = 2, N = 3, K = 4\<rparr> < 7 \<and>
   effectiveCores \<lparr>M = 2, N = 3, K = 4\<rparr> 7 = 2 \<and>
   distributeWork \<lparr>M = 2, N = 3, K = 4\<rparr> 7 =
     [\<lparr>coreId = 0, startRow = 0, endRow = 0\<rparr>, \<lparr>coreId = 1, startRow = 1, endRow = 1\<rparr>]"
proof -
  let ?d = "\<lparr>M = 2, N = 3, K = 4\<rparr>"
  have h: "0 < M ?d" "M ?d < 2 ^ 31" "M ?d < 7" by simp_all
  have u: "[0..(1::int)] = [0, 1]" by (simp add: upto.simps)
  from distributeWork_clamp [OF h] have
    "effectiveCores ?d 7 = M ?d"
    "distributeWork ?d 7 = map (\<lambda>n. \<lparr>coreId = n, startRow = n, endRow = n\<rparr>) [0..M ?d - 1]"
    by blast+
  then show ?thesis by (simp add: u)
qed

section \<open>The instruction sequence of a core\<close>

lemma segmentLoop_closed:
  "segmentLoop cid memMap aRowBase segment instrs =
     instrs @ concat (map (\<lambda>s. [genExeInstr cid True False (cadd aRowBase s),
                                  genExeInstr cid False False 0])
                        [segment..rowsPerMatrixRowA memMap - 1])"
proof (induction "nat (rowsPerMatrixRowA memMap - segment)" arbitrary: segment instrs)
  case 0
  then have "\<not> segment < rowsPerMatrixRowA memMap" by simp
  then show ?case by (subst segmentLoop.simps) simp
next
  case (Suc n)
  then have lt: "segment < rowsPerMatrixRowA memMap" by linarith
  have n: "n = nat (rowsPerMatrixRowA memMap - (segment + 1))" using Suc.hyps(2) by linarith
  have up: "[segment..rowsPerMatrixRowA memMap - 1]
              = segment # [segment + 1..rowsPerMatrixRowA memMap - 1]"
    using lt by (simp add: upto_rec1)
  show ?case
    by (subst segmentLoop.simps) (simp add: lt Let_def Suc.hyps(1) [OF n] up)
qed

lemma kLoop_closed:
  "kLoop cid j dims memMap k instrs =
     instrs @ concat (map (\<lambda>k. [genExeInstr cid True False
                                    (cadd (baseAddrB memMap)
                                       (cadd (cmul k (rowSizeB memMap)) j sdiv MEMORY_ROW_SIZE)),
                                  genExeInstr cid False False
                                    (cadd (cmul k (rowSizeB memMap)) j smod MEMORY_ROW_SIZE),
                                  genExeInstr cid False False 2])
                        [k..K dims - 1])"
proof (induction "nat (K dims - k)" arbitrary: k instrs)
  case 0
  then have "\<not> k < K dims" by simp
  then show ?case by (subst kLoop.simps) simp
next
  case (Suc n)
  then have lt: "k < K dims" by linarith
  have n: "n = nat (K dims - (k + 1))" using Suc.hyps(2) by linarith
  have up: "[k..K dims - 1] = k # [k + 1..K dims - 1]"
    using lt by (simp add: upto_rec1)
  show ?case
    by (subst kLoop.simps) (simp add: lt Let_def Suc.hyps(1) [OF n] up)
qed

lemma jLoop_closed:
  "jLoop cid i dims memMap j instrs =
     instrs @ concat (map (\<lambda>j.
        [''# Computing element C['' @ to_string i @ '']['' @ to_string j @ '']'',
         genExeInstr cid False False 0]
        @ concat (map (\<lambda>k. [genExeInstr cid True False
                                (cadd (baseAddrB memMap)
                                   (cadd (cmul k (rowSizeB memMap)) j sdiv MEMORY_ROW_SIZE)),
                              genExeInstr cid False False
                                (cadd (cmul k (rowSizeB memMap)) j smod MEMORY_ROW_SIZE),
                              genExeInstr cid False False 2])
                    [0..K dims - 1])
        @ [genExeInstr cid False True
             (cadd (baseAddrC memMap) (cadd (cmul i (rowSizeC memMap)) j sdiv MEMORY_ROW_SIZE)),
           genExeInstr cid False False
             (cadd (cmul i (rowSizeC memMap)) j smod MEMORY_ROW_SIZE)])
       [j..N dims - 1])"
proof (induction "nat (N dims - j)" arbitrary: j instrs)
  case 0
  then have "\<not> j < N dims" by simp
  then show ?case by (subst jLoop.simps) simp
next
  case (Suc n)
  then have lt: "j < N dims" by linarith
  have n: "n = nat (N dims - (j + 1))" using Suc.hyps(2) by linarith
  have up: "[j..N dims - 1] = j # [j + 1..N dims - 1]"
    using lt by (simp add: upto_rec1)
  show ?case
    by (subst jLoop.simps) (simp add: lt Let_def Suc.hyps(1) [OF n] up kLoop_closed)
qed

lemma iLoop_closed:
  "iLoop cid endR dims memMap i instrs =
     instrs @ concat (map (\<lambda>i.
        loadRowA cid memMap i [''# Processing row '' @ to_string i]
        @ jLoop cid i dims memMap 0 [])
       [i..endR])"
proof (induction "nat (endR + 1 - i)" arbitrary: i instrs)
  case 0
  then have "\<not> i \<le> endR" by simp
  then show ?case by (subst iLoop.simps) simp
next
  case (Suc n)
  then have le: "i \<le> endR" by linarith
  have n: "n = nat (endR + 1 - (i + 1))" using Suc.hyps(2) by linarith
  have up: "[i..endR] = i # [i + 1..endR]"
    using le by (simp add: upto_rec1)
  have l: "loadRowA cid memMap i (xs @ ys) = xs @ loadRowA cid memMap i ys" for xs ys
    by (simp add: loadRowA_def Let_def segmentLoop_closed)
  have j: "jLoop cid i dims memMap 0 xs = xs @ jLoop cid i dims memMap 0 []" for xs
    by (simp add: jLoop_closed)
  show ?case
    apply (subst iLoop.simps)
    apply (simp only: le if_True Let_def Suc.hyps(1) [OF n] up)
    apply (subst j)
    apply (subst l [of instrs "[''# Processing row '' @ to_string i]"])
    apply simp
    done
qed

lemma generateCoreInstructions_rows:
  "generateCoreInstructions cid startR endR dims memMap =
     [''# Instructions for Core '' @ to_string cid @ '' (Rows '' @ to_string startR
        @ '' to '' @ to_string endR @ '')'',
      genProgInstr cid True False 1]
     @ concat (map (\<lambda>i. loadRowA cid memMap i [''# Processing row '' @ to_string i]
                          @ jLoop cid i dims memMap 0 [])
                [startR..endR])
     @ [genEndInstr cid False False 0]"
  by (simp add: generateCoreInstructions_def Let_def iLoop_closed)

text \<open>
  The output for \<open>rowsPerMatrixRowA = 1\<close> as the source computes it: sums and products
  are those of the 32-bit \<open>int\<close> (\<open>cadd\<close>, \<open>cmul\<close>), quotient and remainder truncate
  (\<open>sdiv\<close>, \<open>smod\<close>).
\<close>

lemma sequencer_single_row_machine:
  assumes "rowsPerMatrixRowA memMap = 1" and "endR < 2 ^ 31 - 1"
  shows "generateCoreInstructions cid startR endR dims memMap =
     [''# Instructions for Core '' @ to_string cid @ '' (Rows '' @ to_string startR
        @ '' to '' @ to_string endR @ '')'',
      genProgInstr cid True False 1]
     @ concat (map (\<lambda>i.
         [''# Processing row '' @ to_string i,
          genExeInstr cid True False
            (cadd (baseAddrA memMap) (cmul i (rowSizeA memMap) sdiv 512)),
          genExeInstr cid False False (cmul i (rowSizeA memMap) smod 512)]
         @ concat (map (\<lambda>j.
             [''# Computing element C['' @ to_string i @ '']['' @ to_string j @ '']'',
              genExeInstr cid False False 0]
             @ concat (map (\<lambda>k.
                 [genExeInstr cid True False
                    (cadd (baseAddrB memMap) (cadd (cmul k (rowSizeB memMap)) j sdiv 512)),
                  genExeInstr cid False False (cadd (cmul k (rowSizeB memMap)) j smod 512),
                  genExeInstr cid False False 2])
                 [0..K dims - 1])
             @ [genExeInstr cid False True
                  (cadd (baseAddrC memMap) (cadd (cmul i (rowSizeC memMap)) j sdiv 512)),
                genExeInstr cid False False (cadd (cmul i (rowSizeC memMap)) j smod 512)])
            [0..N dims - 1]))
        [startR..endR])
     @ [genEndInstr cid False False 0]"
proof -
  have l: "loadRowA cid memMap i [''# Processing row '' @ to_string i] =
      [''# Processing row '' @ to_string i,
       genExeInstr cid True False
         (cadd (baseAddrA memMap) (cmul i (rowSizeA memMap) sdiv 512)),
       genExeInstr cid False False (cmul i (rowSizeA memMap) smod 512)]" for i
    using assms(1) by (simp add: loadRowA_def Let_def MEMORY_ROW_SIZE_def)
  show ?thesis
    unfolding generateCoreInstructions_rows l jLoop_closed MEMORY_ROW_SIZE_def
    by simp
qed

text \<open>
  C9. For every core assignment with \<open>rowsPerMatrixRowA > 1\<close>, the sequencer emits for
  each row i of \<open>[startRow, endRow]\<close> and each segment of \<open>[0, rowsPerMatrixRowA)\<close> exactly
  one EXE with read set, at address \<open>baseAddrA + i*rowsPerMatrixRowA + segment\<close>, followed
  by its offset word (an EXE at address 0), and nothing else for the segment: no
  multiply-accumulate belongs to the segments. The column loop of the row follows as in
  the other path.
\<close>

theorem sequencer_multiple_memory_rows:
  assumes "rowsPerMatrixRowA memMap > 1" and "endR < 2 ^ 31 - 1"
  shows "generateCoreInstructions cid startR endR dims memMap =
     [''# Instructions for Core '' @ to_string cid @ '' (Rows '' @ to_string startR
        @ '' to '' @ to_string endR @ '')'',
      genProgInstr cid True False 1]
     @ concat (map (\<lambda>i.
         [''# Processing row '' @ to_string i]
         @ concat (map (\<lambda>segment.
             [genExeInstr cid True False
                (cadd (cadd (baseAddrA memMap) (cmul i (rowsPerMatrixRowA memMap))) segment),
              genExeInstr cid False False 0])
            [0..rowsPerMatrixRowA memMap - 1])
         @ concat (map (\<lambda>j.
             [''# Computing element C['' @ to_string i @ '']['' @ to_string j @ '']'',
              genExeInstr cid False False 0]
             @ concat (map (\<lambda>k.
                 [genExeInstr cid True False
                    (cadd (baseAddrB memMap) (cadd (cmul k (rowSizeB memMap)) j sdiv 512)),
                  genExeInstr cid False False (cadd (cmul k (rowSizeB memMap)) j smod 512),
                  genExeInstr cid False False 2])
                 [0..K dims - 1])
             @ [genExeInstr cid False True
                  (cadd (baseAddrC memMap) (cadd (cmul i (rowSizeC memMap)) j sdiv 512)),
                genExeInstr cid False False (cadd (cmul i (rowSizeC memMap)) j smod 512)])
            [0..N dims - 1]))
        [startR..endR])
     @ [genEndInstr cid False False 0]"
proof -
  have l: "loadRowA cid memMap i [''# Processing row '' @ to_string i] =
      [''# Processing row '' @ to_string i]
      @ concat (map (\<lambda>segment.
             [genExeInstr cid True False
                (cadd (cadd (baseAddrA memMap) (cmul i (rowsPerMatrixRowA memMap))) segment),
              genExeInstr cid False False 0])
            [0..rowsPerMatrixRowA memMap - 1])" for i
    using assms(1) by (simp add: loadRowA_def Let_def segmentLoop_closed)
  show ?thesis
    unfolding generateCoreInstructions_rows l jLoop_closed MEMORY_ROW_SIZE_def
    by simp
qed

lemma int32_numeral: "int32 0" "int32 1" "int32 (numeral n) = (numeral n < (2147483648 :: int))"
  by (simp_all add: int32_def)

lemma c_exact:
  "int32 (a + b) \<Longrightarrow> cadd a b = a + b"
  "int32 (a - b) \<Longrightarrow> csub a b = a - b"
  "int32 (a * b) \<Longrightarrow> cmul a b = a * b"
  by (simp_all add: cadd_def csub_def cmul_def i32_id)

lemmas eval_small = c_exact int32_numeral sdiv_nonneg smod_nonneg MEMORY_ROW_SIZE_def upto_rec1

lemma to_string_small:
  "to_string 0 = ''0''" "to_string 1 = ''1''" "to_string 2 = ''2''" "to_string 3 = ''3''"
  by (simp_all add: eval_text)







lemma enc_small:
  "genProgInstr 0 True False 1 = ''020401''"
  "genEndInstr 0 False False 0 = ''060000''"
  "genExeInstr 0 False False 0 = ''040000''"
  "genExeInstr 0 False False 2 = ''040002''"
  "genExeInstr 0 True False 0 = ''040400''"
  "genExeInstr 0 True False 1 = ''040401''"
  "genExeInstr 0 True False 2 = ''040402''"
  "genExeInstr 0 True False 3 = ''040403''"
  "genExeInstr 0 False True 2 = ''040202''"
  "genExeInstr 0 False True 4 = ''040204''"
  by (simp_all add: gen_spec_word spec_word_def eval_text)

theorem sequencer_multiple_memory_rows_witness:
  "rowsPerMatrixRowA \<lparr>baseAddrA = 0, baseAddrB = 2, baseAddrC = 3, rowSizeA = 600,
       rowSizeB = 1, rowSizeC = 1, rowsPerMatrixRowA = 2, rowsPerMatrixRowB = 1,
       rowsPerMatrixRowC = 1\<rparr> > 1 \<and>
   (1::int) < 2 ^ 31 - 1 \<and>
   generateCoreInstructions 0 1 1 \<lparr>M = 2, N = 1, K = 1\<rparr>
       \<lparr>baseAddrA = 0, baseAddrB = 2, baseAddrC = 3, rowSizeA = 600,
        rowSizeB = 1, rowSizeC = 1, rowsPerMatrixRowA = 2, rowsPerMatrixRowB = 1,
        rowsPerMatrixRowC = 1\<rparr> =
     [''# Instructions for Core 0 (Rows 1 to 1)'', ''020401'',
      ''# Processing row 1'', ''040402'', ''040000'', ''040403'', ''040000'',
      ''# Computing element C[1][0]'', ''040000'',
      ''040402'', ''040000'', ''040002'',
      ''040203'', ''040001'',
      ''060000'']"
proof -
  let ?mm = "\<lparr>baseAddrA = 0, baseAddrB = 2, baseAddrC = 3, rowSizeA = 600,
       rowSizeB = 1, rowSizeC = 1, rowsPerMatrixRowA = 2, rowsPerMatrixRowB = 1,
       rowsPerMatrixRowC = 1\<rparr>"
  have h: "rowsPerMatrixRowA ?mm > 1" "(1::int) < 2 ^ 31 - 1"
    by simp_all
  have e: "genExeInstr 0 False True 3 = ''040203''" "genExeInstr 0 False False 1 = ''040001''"
    by (simp_all add: gen_spec_word spec_word_def eval_text)
  show ?thesis
    using sequencer_multiple_memory_rows [OF h, of 0 1 "\<lparr>M = 2, N = 1, K = 1\<rparr>"] h
    by (simp add: eval_small to_string_small enc_small e)
qed


















section \<open>The sequence over the integers\<close>

lemma i32_mask9: "i32 x AND 0x1FF = x AND 0x1FF"
  by (simp add: i32_def and_masks take_bit_signed_take_bit)

lemma genExeInstr_wrap: "genExeInstr c r w (i32 x) = genExeInstr c r w x"
  by (simp add: genExeInstr_def Let_def i32_mask9)

lemma i32_add_left: "i32 (i32 a + b) = i32 (a + b)"
proof -
  have e: "a + 2147483648 + b = a + b + 2147483648" by simp
  have "i32 (i32 a + b) = (a + 2147483648 + b) mod 4294967296 - 2147483648"
    by (simp add: i32_mod mod_simps)
  also have "\<dots> = i32 (a + b)"
    by (simp only: e i32_mod)
  finally show ?thesis .
qed

lemma index_exact:
  assumes "0 \<le> a * b + c" "a * b + c < 2 ^ 31"
  shows "cadd (cmul a b) c = a * b + c"
proof -
  have "cadd (cmul a b) c = i32 (a * b + c)"
    by (simp add: cadd_def cmul_def i32_add_left)
  also have "\<dots> = a * b + c"
    using assms by (intro i32_id) (simp add: int32_def)
  finally show ?thesis .
qed

lemma product_exact:
  assumes "0 \<le> a * b" "a * b < 2 ^ 31"
  shows "cmul a b = a * b"
  using assms by (simp add: cmul_def i32_id int32_def)

lemma address_word:
  assumes "0 \<le> x"
  shows "genExeInstr c r w (cadd base (x sdiv 512)) = genExeInstr c r w (base + x div 512)"
    and "genExeInstr c r w (x smod 512) = genExeInstr c r w (x mod 512)"
  using assms by (simp_all add: cadd_def genExeInstr_wrap sdiv_nonneg smod_nonneg)

text \<open>
  C3 (as amended). For every core assignment with \<open>rowsPerMatrixRowA = 1\<close> (its last row
  below \<open>2^31 - 1\<close>) for which the indices \<open>i*rowSizeA\<close>, \<open>k*rowSizeB + j\<close> and
  \<open>i*rowSizeC + j\<close> of all rows i in \<open>[startRow, endRow]\<close>, columns j in \<open>[0, N)\<close> and
  k in \<open>[0, K)\<close> lie in \<open>[0, 2^31)\<close>, the sequencer emits the sequence of the
  specification: for each row i an EXE with read set at \<open>baseAddrA + (i*rowSizeA)/512\<close>
  and an EXE at \<open>(i*rowSizeA)%512\<close>; for each column j and each k, with
  \<open>bIndex = k*rowSizeB + j\<close>, an EXE with read set at \<open>baseAddrB + bIndex/512\<close>, an EXE at
  \<open>bIndex%512\<close> and the multiply-accumulate EXE at address 2; and after each k-loop,
  with \<open>cIndex = i*rowSizeC + j\<close>, an EXE with write set at \<open>baseAddrC + cIndex/512\<close> and
  an EXE at \<open>cIndex%512\<close>, all over the integers (\<open>spec_sequence_single\<close>, which also
  holds the comments, the accumulator-clear EXE of each column, PROG and END).
\<close>

theorem sequencer_single_memory_row:
  assumes r1: "rowsPerMatrixRowA memMap = 1" and e: "endR < 2 ^ 31 - 1"
    and a: "\<forall>i. startR \<le> i \<and> i \<le> endR \<longrightarrow>
              0 \<le> i * rowSizeA memMap \<and> i * rowSizeA memMap < 2 ^ 31"
    and b: "\<forall>j k. 0 \<le> j \<and> j < N dims \<and> 0 \<le> k \<and> k < K dims \<longrightarrow>
              0 \<le> k * rowSizeB memMap + j \<and> k * rowSizeB memMap + j < 2 ^ 31"
    and c: "\<forall>i j. startR \<le> i \<and> i \<le> endR \<and> 0 \<le> j \<and> j < N dims \<longrightarrow>
              0 \<le> i * rowSizeC memMap + j \<and> i * rowSizeC memMap + j < 2 ^ 31"
  shows "generateCoreInstructions cid startR endR dims memMap =
           spec_sequence_single cid startR endR dims memMap"
proof -
  have kblock: "map (\<lambda>k.
                 [genExeInstr cid True False
                    (cadd (baseAddrB memMap) (cadd (cmul k (rowSizeB memMap)) j sdiv 512)),
                  genExeInstr cid False False (cadd (cmul k (rowSizeB memMap)) j smod 512),
                  genExeInstr cid False False 2])
                 [0..K dims - 1]
      = map (\<lambda>k.
                 [genExeInstr cid True False
                    (baseAddrB memMap + (k * rowSizeB memMap + j) div 512),
                  genExeInstr cid False False ((k * rowSizeB memMap + j) mod 512),
                  genExeInstr cid False False 2])
                 [0..K dims - 1]"
    if j: "0 \<le> j" "j < N dims" for j
  proof (rule map_cong [OF refl])
    fix k assume "k \<in> set [0..K dims - 1]"
    then have k: "0 \<le> k" "k < K dims" by simp_all
    with b j have bd: "0 \<le> k * rowSizeB memMap + j" "k * rowSizeB memMap + j < 2 ^ 31"
      by blast+
    show "[genExeInstr cid True False
                    (cadd (baseAddrB memMap) (cadd (cmul k (rowSizeB memMap)) j sdiv 512)),
                  genExeInstr cid False False (cadd (cmul k (rowSizeB memMap)) j smod 512),
                  genExeInstr cid False False 2]
       = [genExeInstr cid True False
                    (baseAddrB memMap + (k * rowSizeB memMap + j) div 512),
                  genExeInstr cid False False ((k * rowSizeB memMap + j) mod 512),
                  genExeInstr cid False False 2]"
      by (simp only: index_exact [OF bd] address_word [OF bd(1)])
  qed
  have jblock: "map (\<lambda>j.
             [''# Computing element C['' @ to_string i @ '']['' @ to_string j @ '']'',
              genExeInstr cid False False 0]
             @ concat (map (\<lambda>k.
                 [genExeInstr cid True False
                    (cadd (baseAddrB memMap) (cadd (cmul k (rowSizeB memMap)) j sdiv 512)),
                  genExeInstr cid False False (cadd (cmul k (rowSizeB memMap)) j smod 512),
                  genExeInstr cid False False 2])
                 [0..K dims - 1])
             @ [genExeInstr cid False True
                  (cadd (baseAddrC memMap) (cadd (cmul i (rowSizeC memMap)) j sdiv 512)),
                genExeInstr cid False False (cadd (cmul i (rowSizeC memMap)) j smod 512)])
            [0..N dims - 1]
      = map (\<lambda>j.
             [''# Computing element C['' @ to_string i @ '']['' @ to_string j @ '']'',
              genExeInstr cid False False 0]
             @ concat (map (\<lambda>k.
                 [genExeInstr cid True False
                    (baseAddrB memMap + (k * rowSizeB memMap + j) div 512),
                  genExeInstr cid False False ((k * rowSizeB memMap + j) mod 512),
                  genExeInstr cid False False 2])
                 [0..K dims - 1])
             @ [genExeInstr cid False True
                  (baseAddrC memMap + (i * rowSizeC memMap + j) div 512),
                genExeInstr cid False False ((i * rowSizeC memMap + j) mod 512)])
            [0..N dims - 1]"
    if i: "startR \<le> i" "i \<le> endR" for i
  proof (rule map_cong [OF refl])
    fix j assume "j \<in> set [0..N dims - 1]"
    then have j: "0 \<le> j" "j < N dims" by simp_all
    with c i have cd: "0 \<le> i * rowSizeC memMap + j" "i * rowSizeC memMap + j < 2 ^ 31"
      by blast+
    show "[''# Computing element C['' @ to_string i @ '']['' @ to_string j @ '']'',
              genExeInstr cid False False 0]
             @ concat (map (\<lambda>k.
                 [genExeInstr cid True False
                    (cadd (baseAddrB memMap) (cadd (cmul k (rowSizeB memMap)) j sdiv 512)),
                  genExeInstr cid False False (cadd (cmul k (rowSizeB memMap)) j smod 512),
                  genExeInstr cid False False 2])
                 [0..K dims - 1])
             @ [genExeInstr cid False True
                  (cadd (baseAddrC memMap) (cadd (cmul i (rowSizeC memMap)) j sdiv 512)),
                genExeInstr cid False False (cadd (cmul i (rowSizeC memMap)) j smod 512)]
        = [''# Computing element C['' @ to_string i @ '']['' @ to_string j @ '']'',
              genExeInstr cid False False 0]
             @ concat (map (\<lambda>k.
                 [genExeInstr cid True False
                    (baseAddrB memMap + (k * rowSizeB memMap + j) div 512),
                  genExeInstr cid False False ((k * rowSizeB memMap + j) mod 512),
                  genExeInstr cid False False 2])
                 [0..K dims - 1])
             @ [genExeInstr cid False True
                  (baseAddrC memMap + (i * rowSizeC memMap + j) div 512),
                genExeInstr cid False False ((i * rowSizeC memMap + j) mod 512)]"
      by (simp only: kblock [OF j] index_exact [OF cd] address_word [OF cd(1)])
  qed
  have rows: "map (\<lambda>i.
         [''# Processing row '' @ to_string i,
          genExeInstr cid True False
            (cadd (baseAddrA memMap) (cmul i (rowSizeA memMap) sdiv 512)),
          genExeInstr cid False False (cmul i (rowSizeA memMap) smod 512)]
         @ concat (map (\<lambda>j.
             [''# Computing element C['' @ to_string i @ '']['' @ to_string j @ '']'',
              genExeInstr cid False False 0]
             @ concat (map (\<lambda>k.
                 [genExeInstr cid True False
                    (cadd (baseAddrB memMap) (cadd (cmul k (rowSizeB memMap)) j sdiv 512)),
                  genExeInstr cid False False (cadd (cmul k (rowSizeB memMap)) j smod 512),
                  genExeInstr cid False False 2])
                 [0..K dims - 1])
             @ [genExeInstr cid False True
                  (cadd (baseAddrC memMap) (cadd (cmul i (rowSizeC memMap)) j sdiv 512)),
                genExeInstr cid False False (cadd (cmul i (rowSizeC memMap)) j smod 512)])
            [0..N dims - 1]))
        [startR..endR]
     = map (\<lambda>i.
         [''# Processing row '' @ to_string i,
          genExeInstr cid True False (baseAddrA memMap + (i * rowSizeA memMap) div 512),
          genExeInstr cid False False ((i * rowSizeA memMap) mod 512)]
         @ concat (map (\<lambda>j.
             [''# Computing element C['' @ to_string i @ '']['' @ to_string j @ '']'',
              genExeInstr cid False False 0]
             @ concat (map (\<lambda>k.
                 [genExeInstr cid True False
                    (baseAddrB memMap + (k * rowSizeB memMap + j) div 512),
                  genExeInstr cid False False ((k * rowSizeB memMap + j) mod 512),
                  genExeInstr cid False False 2])
                 [0..K dims - 1])
             @ [genExeInstr cid False True
                  (baseAddrC memMap + (i * rowSizeC memMap + j) div 512),
                genExeInstr cid False False ((i * rowSizeC memMap + j) mod 512)])
            [0..N dims - 1]))
        [startR..endR]"
  proof (rule map_cong [OF refl])
    fix i assume "i \<in> set [startR..endR]"
    then have i: "startR \<le> i" "i \<le> endR" by simp_all
    with a have ad: "0 \<le> i * rowSizeA memMap" "i * rowSizeA memMap < 2 ^ 31"
      by blast+
    show "[''# Processing row '' @ to_string i,
          genExeInstr cid True False
            (cadd (baseAddrA memMap) (cmul i (rowSizeA memMap) sdiv 512)),
          genExeInstr cid False False (cmul i (rowSizeA memMap) smod 512)]
         @ concat (map (\<lambda>j.
             [''# Computing element C['' @ to_string i @ '']['' @ to_string j @ '']'',
              genExeInstr cid False False 0]
             @ concat (map (\<lambda>k.
                 [genExeInstr cid True False
                    (cadd (baseAddrB memMap) (cadd (cmul k (rowSizeB memMap)) j sdiv 512)),
                  genExeInstr cid False False (cadd (cmul k (rowSizeB memMap)) j smod 512),
                  genExeInstr cid False False 2])
                 [0..K dims - 1])
             @ [genExeInstr cid False True
                  (cadd (baseAddrC memMap) (cadd (cmul i (rowSizeC memMap)) j sdiv 512)),
                genExeInstr cid False False (cadd (cmul i (rowSizeC memMap)) j smod 512)])
            [0..N dims - 1])
       = [''# Processing row '' @ to_string i,
          genExeInstr cid True False (baseAddrA memMap + (i * rowSizeA memMap) div 512),
          genExeInstr cid False False ((i * rowSizeA memMap) mod 512)]
         @ concat (map (\<lambda>j.
             [''# Computing element C['' @ to_string i @ '']['' @ to_string j @ '']'',
              genExeInstr cid False False 0]
             @ concat (map (\<lambda>k.
                 [genExeInstr cid True False
                    (baseAddrB memMap + (k * rowSizeB memMap + j) div 512),
                  genExeInstr cid False False ((k * rowSizeB memMap + j) mod 512),
                  genExeInstr cid False False 2])
                 [0..K dims - 1])
             @ [genExeInstr cid False True
                  (baseAddrC memMap + (i * rowSizeC memMap + j) div 512),
                genExeInstr cid False False ((i * rowSizeC memMap + j) mod 512)])
            [0..N dims - 1])"
      by (simp only: jblock [OF i] product_exact [OF ad] address_word [OF ad(1)])
  qed
  show ?thesis
    unfolding sequencer_single_row_machine [OF r1 e] spec_sequence_single_def
    by (simp only: rows)
qed

theorem sequencer_single_memory_row_witness:
  "rowsPerMatrixRowA (optimizeMemoryLayout \<lparr>M = 301, N = 2, K = 2\<rparr>) = 1 \<and>
   (300 :: int) < 2 ^ 31 - 1 \<and>
   generateCoreInstructions 1 300 300 \<lparr>M = 301, N = 2, K = 2\<rparr>
       (optimizeMemoryLayout \<lparr>M = 301, N = 2, K = 2\<rparr>) =
     [''# Instructions for Core 1 (Rows 300 to 300)'', ''020c01'',
      ''# Processing row 300'', ''040c01'', ''040858'',
      ''# Computing element C[300][0]'', ''040800'',
      ''040c02'', ''040800'', ''040802'',
      ''040c02'', ''040802'', ''040802'',
      ''040a04'', ''040858'',
      ''# Computing element C[300][1]'', ''040800'',
      ''040c02'', ''040801'', ''040802'',
      ''040c02'', ''040803'', ''040802'',
      ''040a04'', ''040859'',
      ''060800''] \<and>
   rowsPerMatrixRowA \<lparr>baseAddrA = 0, baseAddrB = 3, baseAddrC = 10, rowSizeA = 300,
       rowSizeB = 600, rowSizeC = 700, rowsPerMatrixRowA = 1, rowsPerMatrixRowB = 2,
       rowsPerMatrixRowC = 2\<rparr> = 1 \<and>
   generateCoreInstructions 0 2 2 \<lparr>M = 3, N = 2, K = 2\<rparr>
       \<lparr>baseAddrA = 0, baseAddrB = 3, baseAddrC = 10, rowSizeA = 300, rowSizeB = 600,
        rowSizeC = 700, rowsPerMatrixRowA = 1, rowsPerMatrixRowB = 2,
        rowsPerMatrixRowC = 2\<rparr> =
     [''# Instructions for Core 0 (Rows 2 to 2)'', ''020401'',
      ''# Processing row 2'', ''040401'', ''040058'',
      ''# Computing element C[2][0]'', ''040000'',
      ''040403'', ''040000'', ''040002'',
      ''040404'', ''040058'', ''040002'',
      ''04020c'', ''040178'',
      ''# Computing element C[2][1]'', ''040000'',
      ''040403'', ''040001'', ''040002'',
      ''040404'', ''040059'', ''040002'',
      ''04020c'', ''040179'',
      ''060000'']"
proof -
  let ?d = "\<lparr>M = 301, N = 2, K = 2\<rparr>"
  let ?mm = "\<lparr>baseAddrA = 0, baseAddrB = 2, baseAddrC = 3, rowSizeA = 2, rowSizeB = 2,
      rowSizeC = 2, rowsPerMatrixRowA = 1, rowsPerMatrixRowB = 1, rowsPerMatrixRowC = 1\<rparr>"
  have mm: "optimizeMemoryLayout ?d = ?mm"
    by (simp add: optimizeMemoryLayout_def Let_def eval_small)
  have h: "rowsPerMatrixRowA ?mm = 1" "(300 :: int) < 2 ^ 31 - 1"
    "\<forall>i. 300 \<le> i \<and> i \<le> 300 \<longrightarrow> 0 \<le> i * rowSizeA ?mm \<and> i * rowSizeA ?mm < 2 ^ 31"
    "\<forall>j k. 0 \<le> j \<and> j < N ?d \<and> 0 \<le> k \<and> k < K ?d \<longrightarrow>
              0 \<le> k * rowSizeB ?mm + j \<and> k * rowSizeB ?mm + j < 2 ^ 31"
    "\<forall>i j. 300 \<le> i \<and> i \<le> 300 \<and> 0 \<le> j \<and> j < N ?d \<longrightarrow>
              0 \<le> i * rowSizeC ?mm + j \<and> i * rowSizeC ?mm + j < 2 ^ 31"
    by simp_all
  have s: "to_string 300 = ''300''" by (simp add: eval_text)
  have e: "genProgInstr 1 True False 1 = ''020c01''" "genEndInstr 1 False False 0 = ''060800''"
    "genExeInstr 1 True False 1 = ''040c01''" "genExeInstr 1 True False 2 = ''040c02''"
    "genExeInstr 1 False True 4 = ''040a04''"
    "genExeInstr 1 False False 0 = ''040800''" "genExeInstr 1 False False 1 = ''040801''"
    "genExeInstr 1 False False 2 = ''040802''" "genExeInstr 1 False False 3 = ''040803''"
    "genExeInstr 1 False False 88 = ''040858''" "genExeInstr 1 False False 89 = ''040859''"
    by (simp_all add: gen_spec_word spec_word_def eval_text)
  have "generateCoreInstructions 1 300 300 ?d ?mm = spec_sequence_single 1 300 300 ?d ?mm"
    by (rule sequencer_single_memory_row [OF h])
  then have first: "generateCoreInstructions 1 300 300 ?d (optimizeMemoryLayout ?d) =
     [''# Instructions for Core 1 (Rows 300 to 300)'', ''020c01'',
      ''# Processing row 300'', ''040c01'', ''040858'',
      ''# Computing element C[300][0]'', ''040800'',
      ''040c02'', ''040800'', ''040802'',
      ''040c02'', ''040802'', ''040802'',
      ''040a04'', ''040858'',
      ''# Computing element C[300][1]'', ''040800'',
      ''040c02'', ''040801'', ''040802'',
      ''040c02'', ''040803'', ''040802'',
      ''040a04'', ''040859'',
      ''060800'']"
    by (simp add: mm spec_sequence_single_def upto_rec1 to_string_small s e)
  let ?d2 = "\<lparr>M = 3, N = 2, K = 2\<rparr>"
  let ?m2 = "\<lparr>baseAddrA = 0, baseAddrB = 3, baseAddrC = 10, rowSizeA = 300, rowSizeB = 600,
        rowSizeC = 700, rowsPerMatrixRowA = 1, rowsPerMatrixRowB = 2,
        rowsPerMatrixRowC = 2\<rparr>"
  have h2: "rowsPerMatrixRowA ?m2 = 1" "(2 :: int) < 2 ^ 31 - 1"
    "\<forall>i. 2 \<le> i \<and> i \<le> 2 \<longrightarrow> 0 \<le> i * rowSizeA ?m2 \<and> i * rowSizeA ?m2 < 2 ^ 31"
    "\<forall>j k. 0 \<le> j \<and> j < N ?d2 \<and> 0 \<le> k \<and> k < K ?d2 \<longrightarrow>
              0 \<le> k * rowSizeB ?m2 + j \<and> k * rowSizeB ?m2 + j < 2 ^ 31"
    "\<forall>i j. 2 \<le> i \<and> i \<le> 2 \<and> 0 \<le> j \<and> j < N ?d2 \<longrightarrow>
              0 \<le> i * rowSizeC ?m2 + j \<and> i * rowSizeC ?m2 + j < 2 ^ 31"
    by simp_all
  have e2: "genExeInstr 0 True False 3 = ''040403''" "genExeInstr 0 True False 4 = ''040404''"
    "genExeInstr 0 False True 12 = ''04020c''"
    "genExeInstr 0 False False 1 = ''040001''"
    "genExeInstr 0 False False 88 = ''040058''" "genExeInstr 0 False False 89 = ''040059''"
    "genExeInstr 0 False False 376 = ''040178''" "genExeInstr 0 False False 377 = ''040179''"
    by (simp_all add: gen_spec_word spec_word_def eval_text)
  have "generateCoreInstructions 0 2 2 ?d2 ?m2 = spec_sequence_single 0 2 2 ?d2 ?m2"
    by (rule sequencer_single_memory_row [OF h2])
  then have second: "generateCoreInstructions 0 2 2 ?d2 ?m2 =
     [''# Instructions for Core 0 (Rows 2 to 2)'', ''020401'',
      ''# Processing row 2'', ''040401'', ''040058'',
      ''# Computing element C[2][0]'', ''040000'',
      ''040403'', ''040000'', ''040002'',
      ''040404'', ''040058'', ''040002'',
      ''04020c'', ''040178'',
      ''# Computing element C[2][1]'', ''040000'',
      ''040403'', ''040001'', ''040002'',
      ''040404'', ''040059'', ''040002'',
      ''04020c'', ''040179'',
      ''060000'']"
    by (simp add: spec_sequence_single_def upto_rec1 to_string_small enc_small e2)
  have r: "rowsPerMatrixRowA (optimizeMemoryLayout ?d) = 1" by (simp add: mm)
  from r h(2) first h2(1) second show ?thesis by blast
qed

lemma layout_big:
  "optimizeMemoryLayout \<lparr>M = 1073741825, N = 2, K = 1\<rparr> =
     \<lparr>baseAddrA = 0, baseAddrB = 2097153, baseAddrC = 2097154, rowSizeA = 1, rowSizeB = 2,
      rowSizeC = 2, rowsPerMatrixRowA = 1, rowsPerMatrixRowB = 1, rowsPerMatrixRowC = 1\<rparr>"
proof -
  have a: "cmul 1073741825 1 = 1073741825" "cmul 1 2 = 2"
    "csub (cadd 1073741825 512) 1 sdiv 512 = 2097153" "csub (cadd 2 512) 1 sdiv 512 = 1"
    "csub (cadd 1 512) 1 sdiv 512 = 1" "cadd 2097153 1 = 2097154"
    by (simp_all add: eval_small)
  show ?thesis
    by (simp add: optimizeMemoryLayout_def Let_def MEMORY_ROW_SIZE_def a)
qed

lemma store_word_machine:
  "genExeInstr 0 False True (cadd 2097154 (cadd (cmul 1073741824 2) 1 sdiv 512)) = ''040203''"
proof -
  have a: "cmul 1073741824 2 = - 2147483648" by (simp add: cmul_def i32_mod)
  have b: "cadd (- 2147483648) 1 = - 2147483647" by (simp add: cadd_def i32_mod)
  have c: "(- 2147483647) sdiv 512 = (- 4194303 :: int)" by (simp add: signed_divide_int_def)
  have d: "cadd 2097154 (- 4194303) = - 2097149" by (simp add: cadd_def i32_mod)
  have e: "spec_word EXE 0 False True (- 2097149) = 0x40203"
    by (simp add: spec_word_def)
  show ?thesis
    by (simp only: a b c d gen_spec_word e) (simp add: eval_text)
qed

lemma store_word_integer:
  "genExeInstr 0 False True (2097154 + (1073741824 * 2 + 1) div 512) = ''040202''"
proof -
  have e: "spec_word EXE 0 False True 6291458 = 0x40202"
    by (simp add: spec_word_def)
  have "(2097154 + (1073741824 * 2 + 1) div 512 :: int) = 6291458" by simp
  then show ?thesis
    by (simp only: gen_spec_word e) (simp add: eval_text)
qed

lemma store_word_integer_value: "genExeInstr 0 False True 6291458 = ''040202''"
  using store_word_integer by simp


text \<open>
  Without the bound on the indices the claim fails. For M = 1073741825, N = 2, K = 1,
  the map of the planner and the row i = 1073741824, the index \<open>i*rowSizeC + 1\<close> is
  \<open>2^31 + 1\<close>: in 32 bits it wraps to a negative value, the store address becomes
  -2097149 and the emitted word is \<open>040203\<close>, where the address
  \<open>baseAddrC + cIndex/512 = 6291458\<close> of the claim gives \<open>040202\<close>.
\<close>

theorem sequencer_overflow_counterexample:
  "rowsPerMatrixRowA (optimizeMemoryLayout \<lparr>M = 1073741825, N = 2, K = 1\<rparr>) = 1 \<and>
   generateCoreInstructions 0 1073741824 1073741824 \<lparr>M = 1073741825, N = 2, K = 1\<rparr>
       (optimizeMemoryLayout \<lparr>M = 1073741825, N = 2, K = 1\<rparr>) ! 17 = ''040203'' \<and>
   spec_sequence_single 0 1073741824 1073741824 \<lparr>M = 1073741825, N = 2, K = 1\<rparr>
       (optimizeMemoryLayout \<lparr>M = 1073741825, N = 2, K = 1\<rparr>) ! 17 = ''040202'' \<and>
   generateCoreInstructions 0 1073741824 1073741824 \<lparr>M = 1073741825, N = 2, K = 1\<rparr>
       (optimizeMemoryLayout \<lparr>M = 1073741825, N = 2, K = 1\<rparr>)
     \<noteq> spec_sequence_single 0 1073741824 1073741824 \<lparr>M = 1073741825, N = 2, K = 1\<rparr>
       (optimizeMemoryLayout \<lparr>M = 1073741825, N = 2, K = 1\<rparr>)"
proof -
  let ?d = "\<lparr>M = 1073741825, N = 2, K = 1\<rparr>"
  let ?mm = "\<lparr>baseAddrA = 0, baseAddrB = 2097153, baseAddrC = 2097154, rowSizeA = 1,
      rowSizeB = 2, rowSizeC = 2, rowsPerMatrixRowA = 1, rowsPerMatrixRowB = 1,
      rowsPerMatrixRowC = 1\<rparr>"
  have h: "rowsPerMatrixRowA ?mm = 1" "(1073741824 :: int) < 2 ^ 31 - 1" by simp_all
  have l: "generateCoreInstructions 0 1073741824 1073741824 ?d ?mm ! 17 = ''040203''"
    unfolding sequencer_single_row_machine [OF h]
    by (simp add: upto_rec1 store_word_machine)
  have r: "spec_sequence_single 0 1073741824 1073741824 ?d ?mm ! 17 = ''040202''"
    unfolding spec_sequence_single_def
    by (simp add: upto_rec1 store_word_integer_value)
  have "(''040203'' :: string) \<noteq> ''040202''" by simp
  with l r have ne: "generateCoreInstructions 0 1073741824 1073741824 ?d ?mm
     \<noteq> spec_sequence_single 0 1073741824 1073741824 ?d ?mm"
    by metis
  from h(1) l r ne show ?thesis
    by (simp only: layout_big simp_thms)
qed


section \<open>The three-address code\<close>

lemma dec_char_digit: "d < 10 \<Longrightarrow> isDigit (''0123456789'' ! d) \<and> of_char (''0123456789'' ! d) = 48 + d"
proof -
  have "\<forall>d\<in>set [0..<10]. isDigit (''0123456789'' ! d) \<and> of_char (''0123456789'' ! d) = 48 + d"
    by (simp add: isDigit_def upt_conv_Cons)
  moreover assume "d < 10"
  ultimately show ?thesis by simp
qed

lemma dec_digits_all_digits: "list_all isDigit (dec_digits n)"
proof (induction n rule: dec_digits.induct)
  case (1 n)
  show ?case
  proof (cases "n < 10")
    case True
    then show ?thesis by (simp add: dec_digits_lt dec_char_digit)
  next
    case False
    have "n mod 10 < 10" by simp
    with False 1 show ?thesis by (simp add: dec_digits_ge dec_char_digit)
  qed
qed

lemma dec_digits_nonempty: "dec_digits n \<noteq> []"
  by (subst dec_digits.simps) simp

lemma dec_val_append:
  "list_all isDigit ds \<Longrightarrow> dec_val acc (ds @ [c]) =
     (case dec_val acc ds of None \<Rightarrow> None
      | Some a \<Rightarrow> if isDigit c then Some (10 * a + (of_char c - 48)) else None)"
  by (induction ds arbitrary: acc) simp_all

lemma dec_val_digits: "dec_val 0 (dec_digits n) = Some n"
proof (induction n rule: dec_digits.induct)
  case (1 n)
  show ?case
  proof (cases "n < 10")
    case True
    then show ?thesis by (simp add: dec_digits_lt dec_char_digit)
  next
    case False
    have m: "n mod 10 < 10" by simp
    from False 1 show ?thesis
      by (simp add: dec_digits_ge dec_val_append dec_digits_all_digits dec_char_digit [OF m])
  qed
qed

lemma isDigit_isIdChar: "isDigit c \<Longrightarrow> isIdChar c"
  by (simp add: isDigit_def isIdChar_def)

lemma tokens_from_idchars:
  "list_all isIdChar ds \<Longrightarrow> tokens_from cur (ds @ rest) = tokens_from (cur @ ds) rest"
  by (induction ds arbitrary: cur) simp_all

lemma dec_digits_idchars: "list_all isIdChar (dec_digits n)"
  using dec_digits_all_digits [of n] by (simp add: list_all_iff isDigit_isIdChar)

lemma tokens_from_number:
  "tokens_from cur (dec_digits n @ rest) = tokens_from (cur @ dec_digits n) rest"
  "tokens_from cur (dec_digits n) = [cur @ dec_digits n]"
  using tokens_from_idchars [OF dec_digits_idchars, of cur n rest]
    tokens_from_idchars [OF dec_digits_idchars, of cur n "[]"]
  by (simp_all add: dec_digits_nonempty)

lemma number_not_temporary: "\<not> isTemporary (dec_digits n)"
proof -
  obtain c cs where s: "dec_digits n = c # cs"
    using dec_digits_nonempty [of n] by (cases "dec_digits n") auto
  have "isDigit c" using dec_digits_all_digits [of n] by (simp add: s)
  then have "c \<noteq> CHR ''t''" by (auto simp add: isDigit_def)
  then show ?thesis by (simp add: isTemporary_def s)
qed

lemma to_string_pos: "0 < v \<Longrightarrow> to_string v = dec_digits (nat v)"
  by (simp add: to_string_def)

lemma tac_lines:
  assumes "0 < M dims" "0 < N dims" "0 < K dims"
  shows "instructions (generateThreeAddressCode dims) =
        [''i = 0'',
         ''L1: if i >= '' @ dec_digits (nat (M dims)) @ '' goto END_L1'',
         ''    j = 0'',
         ''    L2: if j >= '' @ dec_digits (nat (N dims)) @ '' goto END_L2'',
         ''        sum = 0'',
         ''        k = 0'',
         ''        L3: if k >= '' @ dec_digits (nat (K dims)) @ '' goto END_L3'',
         ''            t1 = i * '' @ dec_digits (nat (K dims)),
         ''            t2 = t1 + k'',
         ''            t3 = k * '' @ dec_digits (nat (N dims)),
         ''            t4 = t3 + j'',
         ''            t5 = A[t2]'',
         ''            t6 = B[t4]'',
         ''            t7 = t5 * t6'',
         ''            sum = sum + t7'',
         ''            k = k + 1'',
         ''            goto L3'',
         ''        END_L3:'',
         ''        t8 = i * '' @ dec_digits (nat (N dims)),
         ''        t9 = t8 + j'',
         ''        C[t9] = sum'',
         ''        j = j + 1'',
         ''        goto L2'',
         ''    END_L2:'',
         ''    i = i + 1'',
         ''    goto L1'',
         ''END_L1:'']"
  using assms by (simp add: generateThreeAddressCode_def to_string_pos)

lemma tac_tokens:
  assumes "0 < M dims" "0 < N dims" "0 < K dims"
  shows "map tokens (instructions (generateThreeAddressCode dims)) =
        [[''i'', ''0''],
         [''L1'', ''if'', ''i'', dec_digits (nat (M dims)), ''goto'', ''END_L1''],
         [''j'', ''0''],
         [''L2'', ''if'', ''j'', dec_digits (nat (N dims)), ''goto'', ''END_L2''],
         [''sum'', ''0''],
         [''k'', ''0''],
         [''L3'', ''if'', ''k'', dec_digits (nat (K dims)), ''goto'', ''END_L3''],
         [''t1'', ''i'', dec_digits (nat (K dims))],
         [''t2'', ''t1'', ''k''],
         [''t3'', ''k'', dec_digits (nat (N dims))],
         [''t4'', ''t3'', ''j''],
         [''t5'', ''A'', ''t2''],
         [''t6'', ''B'', ''t4''],
         [''t7'', ''t5'', ''t6''],
         [''sum'', ''sum'', ''t7''],
         [''k'', ''k'', ''1''],
         [''goto'', ''L3''],
         [''END_L3''],
         [''t8'', ''i'', dec_digits (nat (N dims))],
         [''t9'', ''t8'', ''j''],
         [''C'', ''t9'', ''sum''],
         [''j'', ''j'', ''1''],
         [''goto'', ''L2''],
         [''END_L2''],
         [''i'', ''i'', ''1''],
         [''goto'', ''L1''],
         [''END_L1'']]"
  unfolding tac_lines [OF assms]
  by (simp add: tokens_def isIdChar_def tokens_from_number dec_digits_nonempty)

lemma tac_label_defs:
  assumes "0 < M dims" "0 < N dims" "0 < K dims"
  shows "List.map_filter labelDef (instructions (generateThreeAddressCode dims)) =
           [''L1'', ''L2'', ''L3'', ''END_L3'', ''END_L2'', ''END_L1'']"
  unfolding tac_lines [OF assms]
  by (simp add: List.map_filter_simps labelDef_def isIdChar_def)

lemma goto_targets_tokens:
  "List.map_filter gotoTarget code =
     List.map_filter (\<lambda>ts. if 2 \<le> length ts \<and> ts ! (length ts - 2) = ''goto''
                             then Some (last ts) else None) (map tokens code)"
  by (induction code) (simp_all add: List.map_filter_simps gotoTarget_def Let_def)

lemma tac_goto_targets:
  assumes "0 < M dims" "0 < N dims" "0 < K dims"
  shows "List.map_filter gotoTarget (instructions (generateThreeAddressCode dims)) =
           [''END_L1'', ''END_L2'', ''END_L3'', ''L3'', ''L2'', ''L1'']"
  unfolding goto_targets_tokens tac_tokens [OF assms]
  by (simp add: List.map_filter_simps)

lemma loop_bounds_tokens:
  "List.map_filter loopBound code =
     List.map_filter (\<lambda>ts. if length ts = 6 \<and> ts ! 1 = ''if'' \<and> ts ! 4 = ''goto''
         then Some (ts ! 0, ts ! 2, dec_val 0 (ts ! 3), ts ! 5) else None) (map tokens code)"
  by (induction code) (simp_all add: List.map_filter_simps loopBound_def Let_def)

lemma tac_loop_bounds:
  assumes "0 < M dims" "0 < N dims" "0 < K dims"
  shows "List.map_filter loopBound (instructions (generateThreeAddressCode dims)) =
           [(''L1'', ''i'', Some (nat (M dims)), ''END_L1''),
            (''L2'', ''j'', Some (nat (N dims)), ''END_L2''),
            (''L3'', ''k'', Some (nat (K dims)), ''END_L3'')]"
  unfolding loop_bounds_tokens tac_tokens [OF assms]
  by (simp add: List.map_filter_simps dec_val_digits)

lemma tac_temporaries:
  assumes "0 < M dims" "0 < N dims" "0 < K dims"
  shows "temporaries (instructions (generateThreeAddressCode dims)) =
           {''t1'', ''t2'', ''t3'', ''t4'', ''t5'', ''t6'', ''t7'', ''t8'', ''t9''}"
proof -
  have "filter isTemporary (concat (map tokens (instructions (generateThreeAddressCode dims)))) =
      [''t1'', ''t2'', ''t1'', ''t3'', ''t4'', ''t3'', ''t5'', ''t2'', ''t6'', ''t4'',
       ''t7'', ''t5'', ''t6'', ''t7'', ''t8'', ''t9'', ''t8'', ''t9'']"
    unfolding tac_tokens [OF assms]
    by (simp add: number_not_temporary) (simp add: isTemporary_def isDigit_def)
  then show ?thesis
    unfolding temporaries_def by (simp only: list.set) (simp add: insert_commute)
qed

text \<open>
  C8. For every Dimensions with M, N, K > 0 the IR generator returns the 27 lines of the
  reference triple loop, in order, with the decimal forms of M, N and K as literals. It
  has exactly the labels L1, L2, L3, END_L1, END_L2, END_L3 (as definitions and as jump
  targets), exactly the temporaries t1..t9, and exactly three conditional jumps,
  \<open>L1: if i >= M goto END_L1\<close>, \<open>L2: if j >= N goto END_L2\<close> and
  \<open>L3: if k >= K goto END_L3\<close>, whose literal bounds read back as M, N and K.
\<close>

theorem ir_generator_labels_and_bounds:
  assumes "0 < M dims" "0 < N dims" "0 < K dims"
  shows "let code = instructions (generateThreeAddressCode dims) in
     code =
       [''i = 0'',
        ''L1: if i >= '' @ to_string (M dims) @ '' goto END_L1'',
        ''    j = 0'',
        ''    L2: if j >= '' @ to_string (N dims) @ '' goto END_L2'',
        ''        sum = 0'',
        ''        k = 0'',
        ''        L3: if k >= '' @ to_string (K dims) @ '' goto END_L3'',
        ''            t1 = i * '' @ to_string (K dims),
        ''            t2 = t1 + k'',
        ''            t3 = k * '' @ to_string (N dims),
        ''            t4 = t3 + j'',
        ''            t5 = A[t2]'',
        ''            t6 = B[t4]'',
        ''            t7 = t5 * t6'',
        ''            sum = sum + t7'',
        ''            k = k + 1'',
        ''            goto L3'',
        ''        END_L3:'',
        ''        t8 = i * '' @ to_string (N dims),
        ''        t9 = t8 + j'',
        ''        C[t9] = sum'',
        ''        j = j + 1'',
        ''        goto L2'',
        ''    END_L2:'',
        ''    i = i + 1'',
        ''    goto L1'',
        ''END_L1:''] \<and>
     labelSet code = {''L1'', ''L2'', ''L3'', ''END_L1'', ''END_L2'', ''END_L3''} \<and>
     temporaries code =
       {''t1'', ''t2'', ''t3'', ''t4'', ''t5'', ''t6'', ''t7'', ''t8'', ''t9''} \<and>
     List.map_filter loopBound code =
       [(''L1'', ''i'', Some (nat (M dims)), ''END_L1''),
        (''L2'', ''j'', Some (nat (N dims)), ''END_L2''),
        (''L3'', ''k'', Some (nat (K dims)), ''END_L3'')] \<and>
     code ! 1 = ''L1: if i >= '' @ to_string (M dims) @ '' goto END_L1'' \<and>
     code ! 3 = ''    L2: if j >= '' @ to_string (N dims) @ '' goto END_L2'' \<and>
     code ! 6 = ''        L3: if k >= '' @ to_string (K dims) @ '' goto END_L3''"
proof -
  have l: "labelSet (instructions (generateThreeAddressCode dims)) =
      {''L1'', ''L2'', ''L3'', ''END_L1'', ''END_L2'', ''END_L3''}"
    unfolding labelSet_def tac_label_defs [OF assms] tac_goto_targets [OF assms]
    by (simp only: list.set) (simp add: insert_commute)
  have c: "instructions (generateThreeAddressCode dims) ! 1
             = ''L1: if i >= '' @ to_string (M dims) @ '' goto END_L1''"
    "instructions (generateThreeAddressCode dims) ! 3
             = ''    L2: if j >= '' @ to_string (N dims) @ '' goto END_L2''"
    "instructions (generateThreeAddressCode dims) ! 6
             = ''        L3: if k >= '' @ to_string (K dims) @ '' goto END_L3''"
    by (simp_all add: generateThreeAddressCode_def)
  have f: "instructions (generateThreeAddressCode dims) =
       [''i = 0'',
        ''L1: if i >= '' @ to_string (M dims) @ '' goto END_L1'',
        ''    j = 0'',
        ''    L2: if j >= '' @ to_string (N dims) @ '' goto END_L2'',
        ''        sum = 0'',
        ''        k = 0'',
        ''        L3: if k >= '' @ to_string (K dims) @ '' goto END_L3'',
        ''            t1 = i * '' @ to_string (K dims),
        ''            t2 = t1 + k'',
        ''            t3 = k * '' @ to_string (N dims),
        ''            t4 = t3 + j'',
        ''            t5 = A[t2]'',
        ''            t6 = B[t4]'',
        ''            t7 = t5 * t6'',
        ''            sum = sum + t7'',
        ''            k = k + 1'',
        ''            goto L3'',
        ''        END_L3:'',
        ''        t8 = i * '' @ to_string (N dims),
        ''        t9 = t8 + j'',
        ''        C[t9] = sum'',
        ''        j = j + 1'',
        ''        goto L2'',
        ''    END_L2:'',
        ''    i = i + 1'',
        ''    goto L1'',
        ''END_L1:'']"
    by (simp add: generateThreeAddressCode_def)
  show ?thesis
    unfolding Let_def
    using f l tac_temporaries [OF assms] tac_loop_bounds [OF assms] c by blast
qed

theorem ir_generator_labels_and_bounds_witness:
  "0 < M \<lparr>M = 2, N = 2, K = 2\<rparr> \<and> 0 < N \<lparr>M = 2, N = 2, K = 2\<rparr> \<and>
   0 < K \<lparr>M = 2, N = 2, K = 2\<rparr> \<and>
   labelSet (instructions (generateThreeAddressCode \<lparr>M = 2, N = 2, K = 2\<rparr>)) =
     {''L1'', ''L2'', ''L3'', ''END_L1'', ''END_L2'', ''END_L3''} \<and>
   List.map_filter loopBound (instructions (generateThreeAddressCode \<lparr>M = 2, N = 2, K = 2\<rparr>)) =
       [(''L1'', ''i'', Some 2, ''END_L1''),
        (''L2'', ''j'', Some 2, ''END_L2''),
        (''L3'', ''k'', Some 2, ''END_L3'')]"
proof -
  let ?d = "\<lparr>M = 2, N = 2, K = 2\<rparr>"
  have h: "0 < M ?d" "0 < N ?d" "0 < K ?d" by simp_all
  have n: "nat (M ?d) = 2" "nat (N ?d) = 2" "nat (K ?d) = 2" by simp_all
  from ir_generator_labels_and_bounds [OF h] have
    "labelSet (instructions (generateThreeAddressCode ?d)) =
       {''L1'', ''L2'', ''L3'', ''END_L1'', ''END_L2'', ''END_L3''}"
    "List.map_filter loopBound (instructions (generateThreeAddressCode ?d)) =
       [(''L1'', ''i'', Some (nat (M ?d)), ''END_L1''),
        (''L2'', ''j'', Some (nat (N ?d)), ''END_L2''),
        (''L3'', ''k'', Some (nat (K ?d)), ''END_L3'')]"
    unfolding Let_def by blast+
  with h show ?thesis by (simp only: n simp_thms)
qed

text \<open>
  C10. For all integer values of M, N, K the IR generator returns exactly 27 lines, and
  they are the 27 fixed line templates of \<open>tac_template\<close> with the decimal forms of the
  dimensions filled into their places.
\<close>

theorem ir_generator_fixed_shape:
  "length (instructions (generateThreeAddressCode dims)) = 27 \<and>
   length tac_template = 27 \<and>
   instructions (generateThreeAddressCode dims) = map (fill_line dims) tac_template"
  by (simp add: generateThreeAddressCode_def tac_template_def fill_line_def)

section \<open>The validation of the driver\<close>














end
